theory Spec2Isabelle
  imports Main "HOL-Library.Word" "HOL-Library.Monad_Syntax"
begin

section \<open>YunChat: the multi-provider chat services of AIService.ts\<close>

text \<open>
  The three services (\<open>OpenAIService\<close>, \<open>AnthropicService\<close>, \<open>GoogleService\<close>) and
  \<open>AIServiceFactory\<close> are embedded as functions of everything they read: the service's
  fields, the arguments of the call, and the answer of \<open>fetch\<close>. An exception is a value
  (\<open>Inl\<close> of a sum, or \<open>None\<close> where the only handler treats every exception alike),
  and the calls of the \<open>onStream\<close> callback are returned as a list, in call order.

  The services are written against the JavaScript platform: strings of UTF-16 code
  units, \<open>TextDecoder\<close>, \<open>String.prototype\<close> methods, \<open>JSON.parse\<close>, property access
  and the coercions of \<open>||\<close>, \<open>+=\<close> and template literals. The first part of the theory
  models those from ECMA-262 and the WHATWG Encoding standard, the second part is the
  repository's code.
\<close>

subsection \<open>Strings and values\<close>

text \<open>A JavaScript string is a sequence of UTF-16 code units; a byte is an element of a
  \<open>Uint8Array\<close>.\<close>

type_synonym jstring = "nat list"
type_synonym byte = "8 word"

definition lit :: "string \<Rightarrow> jstring" where
  "lit s = map of_char s"

definition ascii :: "string \<Rightarrow> byte list" where
  "ascii s = map of_char s"

text \<open>
  A value as \<open>JSON.parse\<close> builds it, and \<open>undefined\<close>. A number is kept as the decimal
  \<open>m * 10 ^ e\<close> that its literal denotes (\<open>JNum m e\<close>); an object is the list of its own
  properties, each key once.
\<close>

datatype jsval =
    JUndefined
  | JNull
  | JBool bool
  | JNum int int
  | JStr jstring
  | JArr "jsval list"
  | JObj "(jstring \<times> jsval) list"

datatype exn =
    Error jstring      \<comment> \<open>\<open>new Error(message)\<close>\<close>
  | SyntaxError        \<comment> \<open>raised by \<open>JSON.parse\<close> and \<open>response.json()\<close>\<close>
  | TypeError          \<comment> \<open>a property read of \<open>null\<close>/\<open>undefined\<close>, a failed coercion\<close>
  | NetworkError       \<comment> \<open>the rejection of \<open>fetch\<close> or of a body read\<close>

subsection \<open>String.prototype\<close>

definition startsWith :: "jstring \<Rightarrow> jstring \<Rightarrow> bool" where
  "startsWith s p = (take (length p) s = p)"

fun includes_str :: "jstring \<Rightarrow> jstring \<Rightarrow> bool" where
  "includes_str [] p = (p = [])"
| "includes_str (c # s) p = (startsWith (c # s) p \<or> includes_str s p)"

text \<open>\<open>s.split('\n')\<close>: the pieces between line feeds; never the empty list.\<close>

fun split_acc :: "nat \<Rightarrow> jstring \<Rightarrow> jstring \<Rightarrow> jstring list" where
  "split_acc sep cur [] = [rev cur]"
| "split_acc sep cur (c # s) =
     (if c = sep then rev cur # split_acc sep [] s else split_acc sep (c # cur) s)"

definition split :: "jstring \<Rightarrow> nat \<Rightarrow> jstring list" where
  "split s sep = split_acc sep [] s"

text \<open>The code units \<open>trim\<close> removes: WhiteSpace and LineTerminator of ECMA-262.\<close>

definition is_space :: "nat \<Rightarrow> bool" where
  "is_space c =
     (c = 0x09 \<or> c = 0x0A \<or> c = 0x0B \<or> c = 0x0C \<or> c = 0x0D \<or> c = 0x20 \<or> c = 0xA0
      \<or> c = 0x1680 \<or> (0x2000 \<le> c \<and> c \<le> 0x200A) \<or> c = 0x2028 \<or> c = 0x2029
      \<or> c = 0x202F \<or> c = 0x205F \<or> c = 0x3000 \<or> c = 0xFEFF)"

definition trim :: "jstring \<Rightarrow> jstring" where
  "trim s = rev (dropWhile is_space (rev (dropWhile is_space s)))"

text \<open>
  \<open>toLowerCase\<close> on the letters of ASCII. The mappings of the Unicode tables for other
  code units are not modelled: apart from U+212A (the Kelvin sign, which gives \<open>k\<close>)
  none of them gives ASCII letters only, so they do not change which strings lower-case
  to one of the three provider names.
\<close>

definition lower_unit :: "nat \<Rightarrow> nat" where
  "lower_unit c = (if 0x41 \<le> c \<and> c \<le> 0x5A then c + 0x20 else c)"

definition toLowerCase :: "jstring \<Rightarrow> jstring" where
  "toLowerCase s = map lower_unit s"

subsection \<open>TextDecoder\<close>

text \<open>
  The UTF-8 decoder of the Encoding standard: the code point being assembled, the number
  of continuation bytes still needed, and the bounds of the next byte. A byte that cannot
  continue a sequence gives U+FFFD and is read again as the start of a sequence.
\<close>

record utf8 =
  cp :: nat
  needed :: nat
  lower :: nat
  upper :: nat

definition utf8_init :: utf8 where
  "utf8_init = \<lparr>cp = 0, needed = 0, lower = 0x80, upper = 0xBF\<rparr>"

definition utf8_lead :: "nat \<Rightarrow> nat list \<times> utf8" where
  "utf8_lead b =
     (if b \<le> 0x7F then ([b], utf8_init)
      else if 0xC2 \<le> b \<and> b \<le> 0xDF then
        ([], \<lparr>cp = b - 0xC0, needed = 1, lower = 0x80, upper = 0xBF\<rparr>)
      else if 0xE0 \<le> b \<and> b \<le> 0xEF then
        ([], \<lparr>cp = b - 0xE0, needed = 2,
              lower = (if b = 0xE0 then 0xA0 else 0x80),
              upper = (if b = 0xED then 0x9F else 0xBF)\<rparr>)
      else if 0xF0 \<le> b \<and> b \<le> 0xF4 then
        ([], \<lparr>cp = b - 0xF0, needed = 3,
              lower = (if b = 0xF0 then 0x90 else 0x80),
              upper = (if b = 0xF4 then 0x8F else 0xBF)\<rparr>)
      else ([0xFFFD], utf8_init))"

definition utf8_byte :: "utf8 \<Rightarrow> nat \<Rightarrow> nat list \<times> utf8" where
  "utf8_byte st b =
     (if needed st = 0 then utf8_lead b
      else if b < lower st \<or> upper st < b then
        (0xFFFD # fst (utf8_lead b), snd (utf8_lead b))
      else
        (let c = cp st * 64 + (b - 0x80) in
         if needed st = 1 then ([c], utf8_init)
         else ([], \<lparr>cp = c, needed = needed st - 1, lower = 0x80, upper = 0xBF\<rparr>)))"

fun utf8_run :: "utf8 \<Rightarrow> byte list \<Rightarrow> nat list \<times> utf8" where
  "utf8_run st [] = ([], st)"
| "utf8_run st (b # bs) =
     (let (out, st') = utf8_byte st (unat b); (rest, st'') = utf8_run st' bs
      in (out @ rest, st''))"

text \<open>A code point as UTF-16: itself, or a surrogate pair.\<close>

definition utf16 :: "nat \<Rightarrow> jstring" where
  "utf16 c =
     (if c < 0x10000 then [c]
      else [0xD800 + (c - 0x10000) div 0x400, 0xDC00 + (c - 0x10000) mod 0x400])"

definition strip_bom :: "nat list \<Rightarrow> nat list" where
  "strip_bom cs = (case cs of [] \<Rightarrow> [] | c # rest \<Rightarrow> if c = 0xFEFF then rest else cs)"

text \<open>
  \<open>decoder.decode(value)\<close>, without \<open>stream\<close>: the call starts from a fresh decoder,
  an unfinished sequence at the end of the bytes gives U+FFFD, a leading byte order mark
  is dropped.
\<close>

definition decode :: "byte list \<Rightarrow> jstring" where
  "decode bs =
     (let (out, st) = utf8_run utf8_init bs;
          out' = (if needed st = 0 then out else out @ [0xFFFD])
      in concat (map utf16 (strip_bom out')))"

text \<open>
  \<open>decoder.decode(value, {stream: true})\<close>: the decoder and its "BOM seen" flag are kept
  for the next call, and an unfinished sequence waits there.
\<close>

definition decode_stream :: "utf8 \<times> bool \<Rightarrow> byte list \<Rightarrow> jstring \<times> (utf8 \<times> bool)" where
  "decode_stream d bs =
     (let (out, st) = utf8_run (fst d) bs in
      if snd d \<or> out = [] then (concat (map utf16 out), (st, snd d))
      else (concat (map utf16 (strip_bom out)), (st, True)))"

subsection \<open>JSON.parse\<close>

text \<open>
  The grammar of ECMA-404 as \<open>JSON.parse\<close> reads it, in two passes over the text: a
  scanner that turns code units into tokens, and a parser that folds the tokens into a
  value with a stack of the arrays and objects still open. \<open>None\<close> is the
  \<open>SyntaxError\<close>.
\<close>

datatype token = TLBrace | TRBrace | TLBrack | TRBrack | TComma | TColon | TVal jsval

datatype scan =
    Idle
  | InStr jstring            \<comment> \<open>inside a string; the units read, last first\<close>
  | Esc jstring              \<comment> \<open>after a backslash\<close>
  | Uni jstring "nat list"   \<comment> \<open>after \<open>\u\<close>, with the hex digits read\<close>
  | Num jstring              \<comment> \<open>inside a number; the units read, last first\<close>
  | Word jstring             \<comment> \<open>inside \<open>true\<close>, \<open>false\<close> or \<open>null\<close>\<close>

definition is_digit :: "nat \<Rightarrow> bool" where
  "is_digit c = (0x30 \<le> c \<and> c \<le> 0x39)"

definition digits_val :: "nat list \<Rightarrow> nat" where
  "digits_val ds = foldl (\<lambda>a c. a * 10 + (c - 0x30)) 0 ds"

definition hex_val :: "nat \<Rightarrow> nat option" where
  "hex_val c =
     (if 0x30 \<le> c \<and> c \<le> 0x39 then Some (c - 0x30)
      else if 0x41 \<le> c \<and> c \<le> 0x46 then Some (c - 0x41 + 10)
      else if 0x61 \<le> c \<and> c \<le> 0x66 then Some (c - 0x61 + 10)
      else None)"

text \<open>
  A number literal: \<open>-? (0 | [1-9][0-9]*) (. [0-9]+)? ([eE] [+-]? [0-9]+)?\<close>. With integer
  digits \<open>ip\<close>, fraction digits \<open>fp\<close> and exponent \<open>x\<close> it denotes
  \<open>\<plusminus> ip fp * 10 ^ (x - length fp)\<close>.
\<close>

definition exponent_of :: "jstring \<Rightarrow> int option" where
  "exponent_of s =
     (case s of
        [] \<Rightarrow> Some 0
      | c # r \<Rightarrow>
          if c = 0x65 \<or> c = 0x45 then
            (let neg = (case r of [] \<Rightarrow> False | d # _ \<Rightarrow> d = 0x2D);
                 ds = (case r of [] \<Rightarrow> [] | d # r' \<Rightarrow> if d = 0x2D \<or> d = 0x2B then r' else r)
             in if ds = [] \<or> filter is_digit ds \<noteq> ds then None
                else Some (if neg then - int (digits_val ds) else int (digits_val ds)))
          else None)"

definition number_of :: "jstring \<Rightarrow> jsval option" where
  "number_of s =
     (let neg = (case s of [] \<Rightarrow> False | c # _ \<Rightarrow> c = 0x2D);
          s1 = (if neg then tl s else s);
          ip = takeWhile is_digit s1;
          s2 = dropWhile is_digit s1;
          dot = (case s2 of [] \<Rightarrow> False | c # _ \<Rightarrow> c = 0x2E);
          fp = (if dot then takeWhile is_digit (tl s2) else []);
          s3 = (if dot then dropWhile is_digit (tl s2) else s2)
      in if ip = [] \<or> (1 < length ip \<and> hd ip = 0x30) \<or> (dot \<and> fp = []) then None
         else case exponent_of s3 of
                None \<Rightarrow> None
              | Some x \<Rightarrow>
                  Some (JNum (if neg then - int (digits_val (ip @ fp)) else int (digits_val (ip @ fp)))
                             (x - int (length fp))))"

definition word_of :: "jstring \<Rightarrow> jsval option" where
  "word_of s =
     (if s = lit ''true'' then Some (JBool True)
      else if s = lit ''false'' then Some (JBool False)
      else if s = lit ''null'' then Some JNull
      else None)"

definition scan_idle :: "nat \<Rightarrow> (token list \<times> scan) option" where
  "scan_idle c =
     (if c = 0x20 \<or> c = 0x09 \<or> c = 0x0A \<or> c = 0x0D then Some ([], Idle)
      else if c = 0x7B then Some ([TLBrace], Idle)
      else if c = 0x7D then Some ([TRBrace], Idle)
      else if c = 0x5B then Some ([TLBrack], Idle)
      else if c = 0x5D then Some ([TRBrack], Idle)
      else if c = 0x2C then Some ([TComma], Idle)
      else if c = 0x3A then Some ([TColon], Idle)
      else if c = 0x22 then Some ([], InStr [])
      else if c = 0x2D \<or> is_digit c then Some ([], Num [c])
      else if 0x61 \<le> c \<and> c \<le> 0x7A then Some ([], Word [c])
      else None)"

definition after_token :: "jsval option \<Rightarrow> nat \<Rightarrow> (token list \<times> scan) option" where
  "after_token v c =
     (case v of
        None \<Rightarrow> None
      | Some x \<Rightarrow> (case scan_idle c of None \<Rightarrow> None | Some (ts, st) \<Rightarrow> Some (TVal x # ts, st)))"

fun scan_step :: "scan \<Rightarrow> nat \<Rightarrow> (token list \<times> scan) option" where
  "scan_step Idle c = scan_idle c"
| "scan_step (InStr acc) c =
     (if c = 0x22 then Some ([TVal (JStr (rev acc))], Idle)
      else if c = 0x5C then Some ([], Esc acc)
      else if c < 0x20 then None
      else Some ([], InStr (c # acc)))"
| "scan_step (Esc acc) c =
     (if c = 0x22 \<or> c = 0x5C \<or> c = 0x2F then Some ([], InStr (c # acc))
      else if c = 0x62 then Some ([], InStr (0x08 # acc))
      else if c = 0x66 then Some ([], InStr (0x0C # acc))
      else if c = 0x6E then Some ([], InStr (0x0A # acc))
      else if c = 0x72 then Some ([], InStr (0x0D # acc))
      else if c = 0x74 then Some ([], InStr (0x09 # acc))
      else if c = 0x75 then Some ([], Uni acc [])
      else None)"
| "scan_step (Uni acc ds) c =
     (case hex_val c of
        None \<Rightarrow> None
      | Some d \<Rightarrow>
          if length ds = 3 then Some ([], InStr (foldl (\<lambda>a h. a * 16 + h) 0 (ds @ [d]) # acc))
          else Some ([], Uni acc (ds @ [d])))"
| "scan_step (Num acc) c =
     (if is_digit c \<or> c = 0x2D \<or> c = 0x2B \<or> c = 0x2E \<or> c = 0x65 \<or> c = 0x45
      then Some ([], Num (c # acc))
      else after_token (number_of (rev acc)) c)"
| "scan_step (Word acc) c =
     (if 0x61 \<le> c \<and> c \<le> 0x7A then Some ([], Word (c # acc))
      else after_token (word_of (rev acc)) c)"

fun scan_end :: "scan \<Rightarrow> token list option" where
  "scan_end Idle = Some []"
| "scan_end (Num acc) = map_option (\<lambda>v. [TVal v]) (number_of (rev acc))"
| "scan_end (Word acc) = map_option (\<lambda>v. [TVal v]) (word_of (rev acc))"
| "scan_end _ = None"

fun scan_run :: "scan \<Rightarrow> jstring \<Rightarrow> token list option" where
  "scan_run st [] = scan_end st"
| "scan_run st (c # cs) =
     (case scan_step st c of
        None \<Rightarrow> None
      | Some (ts, st') \<Rightarrow> map_option ((@) ts) (scan_run st' cs))"

text \<open>A key read twice keeps its place and takes the later value.\<close>

fun obj_set :: "(jstring \<times> jsval) list \<Rightarrow> jstring \<Rightarrow> jsval \<Rightarrow> (jstring \<times> jsval) list" where
  "obj_set [] k v = [(k, v)]"
| "obj_set ((k', v') # kvs) k v =
     (if k' = k then (k, v) # kvs else (k', v') # obj_set kvs k v)"

datatype frame =
    FArr "jsval list"
  | FObj "(jstring \<times> jsval) list"
  | FKey "(jstring \<times> jsval) list" jstring   \<comment> \<open>an object whose key awaits its value\<close>

datatype expect =
    Value | ValueOrEnd | KeyOrEnd | Key | Colon | CommaOrEnd | Finished jsval

fun put_value :: "frame list \<Rightarrow> jsval \<Rightarrow> (frame list \<times> expect) option" where
  "put_value [] v = Some ([], Finished v)"
| "put_value (FArr xs # st) v = Some (FArr (xs @ [v]) # st, CommaOrEnd)"
| "put_value (FKey kvs k # st) v = Some (FObj (obj_set kvs k v) # st, CommaOrEnd)"
| "put_value (FObj kvs # st) v = None"

fun close_frame :: "frame list \<Rightarrow> token \<Rightarrow> (frame list \<times> expect) option" where
  "close_frame (FArr xs # st) TRBrack = put_value st (JArr xs)"
| "close_frame (FObj kvs # st) TRBrace = put_value st (JObj kvs)"
| "close_frame _ _ = None"

fun open_value :: "frame list \<Rightarrow> token \<Rightarrow> (frame list \<times> expect) option" where
  "open_value st (TVal v) = put_value st v"
| "open_value st TLBrack = Some (FArr [] # st, ValueOrEnd)"
| "open_value st TLBrace = Some (FObj [] # st, KeyOrEnd)"
| "open_value st _ = None"

fun read_key :: "frame list \<Rightarrow> token \<Rightarrow> (frame list \<times> expect) option" where
  "read_key (FObj kvs # st) (TVal (JStr k)) = Some (FKey kvs k # st, Colon)"
| "read_key _ _ = None"

fun parse_step :: "frame list \<times> expect \<Rightarrow> token \<Rightarrow> (frame list \<times> expect) option" where
  "parse_step (st, Value) t = open_value st t"
| "parse_step (st, ValueOrEnd) t = (if t = TRBrack then close_frame st t else open_value st t)"
| "parse_step (st, KeyOrEnd) t = (if t = TRBrace then close_frame st t else read_key st t)"
| "parse_step (st, Key) t = read_key st t"
| "parse_step (st, Colon) t = (if t = TColon then Some (st, Value) else None)"
| "parse_step (st, CommaOrEnd) t =
     (if t = TComma then
        (case st of
           FArr xs # _ \<Rightarrow> Some (st, Value)
         | FKey kvs k # _ \<Rightarrow> None
         | FObj kvs # _ \<Rightarrow> Some (st, Key)
         | [] \<Rightarrow> None)
      else close_frame st t)"
| "parse_step (st, Finished v) t = None"

fun parse_run :: "frame list \<times> expect \<Rightarrow> token list \<Rightarrow> (frame list \<times> expect) option" where
  "parse_run p [] = Some p"
| "parse_run p (t # ts) = (case parse_step p t of None \<Rightarrow> None | Some p' \<Rightarrow> parse_run p' ts)"

definition JSON_parse :: "jstring \<Rightarrow> jsval option" where
  "JSON_parse s =
     (case scan_run Idle s of
        None \<Rightarrow> None
      | Some ts \<Rightarrow>
          (case parse_run ([], Value) ts of
             Some ([], Finished v) \<Rightarrow> Some v
           | _ \<Rightarrow> None))"

subsection \<open>Coercions and property access\<close>

text \<open>
  \<open>ToBoolean\<close>. A number literal is falsy when the double nearest to it is zero: the
  literal is zero, or at most \<open>2 ^ -1075\<close> in magnitude (half the least positive
  double, which rounds to the even neighbour, zero).
\<close>

fun truthy :: "jsval \<Rightarrow> bool" where
  "truthy JUndefined = False"
| "truthy JNull = False"
| "truthy (JBool b) = b"
| "truthy (JNum m e) = (m \<noteq> 0 \<and> \<not> (e < 0 \<and> \<bar>m\<bar> * 2 ^ 1075 \<le> 10 ^ nat (- e)))"
| "truthy (JStr s) = (s \<noteq> [])"
| "truthy (JArr xs) = True"
| "truthy (JObj kvs) = True"

definition or_else :: "jsval \<Rightarrow> jsval \<Rightarrow> jsval" where
  \<comment> \<open>\<open>a || b\<close>, for a \<open>b\<close> whose evaluation cannot raise\<close>
  "or_else a b = (if truthy a then a else b)"

definition nullish :: "jsval \<Rightarrow> bool" where
  "nullish v = (v = JUndefined \<or> v = JNull)"

text \<open>
  \<open>ToString\<close>, as the template literals and \<open>fullResponse += content\<close> apply it.
  \<open>Number::toString\<close> works on the double and is a parameter (\<open>nts m e\<close> for the
  literal \<open>m * 10 ^ e\<close>). An array is joined with commas, \<open>null\<close> and \<open>undefined\<close>
  elements giving nothing. An object built by \<open>JSON.parse\<close> has no callable property of
  its own: its string is \<open>[object Object]\<close> from \<open>Object.prototype.toString\<close>, unless
  an own property \<open>toString\<close> hides that method, and then the coercion raises
  \<open>TypeError\<close> (\<open>None\<close>).
\<close>

type_synonym number_toString = "int \<Rightarrow> int \<Rightarrow> jstring"

fun ToString :: "number_toString \<Rightarrow> jsval \<Rightarrow> jstring option"
  and join_elems :: "number_toString \<Rightarrow> jsval list \<Rightarrow> jstring option" where
  "ToString nts JUndefined = Some (lit ''undefined'')"
| "ToString nts JNull = Some (lit ''null'')"
| "ToString nts (JBool b) = Some (if b then lit ''true'' else lit ''false'')"
| "ToString nts (JNum m e) = Some (nts m e)"
| "ToString nts (JStr s) = Some s"
| "ToString nts (JArr xs) = join_elems nts xs"
| "ToString nts (JObj kvs) =
     (if map_of kvs (lit ''toString'') = None then Some (lit ''[object Object]'') else None)"
| "join_elems nts [] = Some []"
| "join_elems nts (x # xs) =
     (case (case x of JUndefined \<Rightarrow> Some [] | JNull \<Rightarrow> Some [] | _ \<Rightarrow> ToString nts x) of
        None \<Rightarrow> None
      | Some s \<Rightarrow>
          (case xs of
             [] \<Rightarrow> Some s
           | _ # _ \<Rightarrow> map_option (\<lambda>r. s @ 0x2C # r) (join_elems nts xs)))"

definition add_string :: "number_toString \<Rightarrow> jstring \<Rightarrow> jsval \<Rightarrow> jstring option" where
  \<comment> \<open>\<open>s += v\<close> for a string \<open>s\<close>\<close>
  "add_string nts s v = map_option ((@) s) (ToString nts v)"

text \<open>
  \<open>v.name\<close>, for the names the services read (\<open>choices\<close>, \<open>delta\<close>, \<open>message\<close>,
  \<open>content\<close>, \<open>text\<close>, \<open>candidates\<close>, \<open>parts\<close>, \<open>error\<close>, \<open>code\<close>, \<open>max_tokens\<close>,
  \<open>temperature\<close>, \<open>top_p\<close>): no prototype defines them, so only an object's own
  property answers. Reading a property of \<open>null\<close> or \<open>undefined\<close> raises \<open>TypeError\<close>.
\<close>

fun own_prop :: "jsval \<Rightarrow> jstring \<Rightarrow> jsval" where
  "own_prop (JObj kvs) k = (case map_of kvs k of None \<Rightarrow> JUndefined | Some v \<Rightarrow> v)"
| "own_prop _ k = JUndefined"

definition get :: "jsval \<Rightarrow> jstring \<Rightarrow> jsval option" where
  "get v k = (if nullish v then None else Some (own_prop v k))"

definition opt_get :: "jsval \<Rightarrow> jstring \<Rightarrow> jsval" where
  \<comment> \<open>\<open>v?.name\<close>: \<open>undefined\<close> when \<open>v\<close> is \<open>null\<close> or \<open>undefined\<close>, and so on along a chain\<close>
  "opt_get v k = (if nullish v then JUndefined else own_prop v k)"

fun dec :: "nat \<Rightarrow> jstring" where
  "dec n = (if n < 10 then [0x30 + n] else dec (n div 10) @ [0x30 + n mod 10])"

text \<open>\<open>v[i]\<close>: an element of an array, a unit of a string, the property \<open>"i"\<close> of an object.\<close>

fun elem :: "jsval \<Rightarrow> nat \<Rightarrow> jsval" where
  "elem (JArr xs) i = (if i < length xs then xs ! i else JUndefined)"
| "elem (JStr s) i = (if i < length s then JStr [s ! i] else JUndefined)"
| "elem (JObj kvs) i = (case map_of kvs (dec i) of None \<Rightarrow> JUndefined | Some v \<Rightarrow> v)"
| "elem _ i = JUndefined"

definition index :: "jsval \<Rightarrow> nat \<Rightarrow> jsval option" where
  "index v i = (if nullish v then None else Some (elem v i))"

definition opt_elem :: "jsval \<Rightarrow> nat \<Rightarrow> jsval" where
  \<comment> \<open>\<open>v?.[i]\<close>\<close>
  "opt_elem v i = (if nullish v then JUndefined else elem v i)"

text \<open>The own enumerable properties \<open>{...v}\<close> copies, and the copy onto an object.\<close>

fun own_props :: "jsval \<Rightarrow> (jstring \<times> jsval) list" where
  "own_props (JObj kvs) = kvs"
| "own_props (JArr xs) = map (\<lambda>i. (dec i, xs ! i)) [0 ..< length xs]"
| "own_props (JStr s) = map (\<lambda>i. (dec i, JStr [s ! i])) [0 ..< length s]"
| "own_props _ = []"

definition spread :: "(jstring \<times> jsval) list \<Rightarrow> jsval \<Rightarrow> (jstring \<times> jsval) list" where
  "spread obj v = foldl (\<lambda>ob kv. obj_set ob (fst kv) (snd kv)) obj (own_props v)"

subsection \<open>fetch\<close>

text \<open>
  A request as the services hand it to \<open>fetch\<close>: \<open>verb\<close> is its \<open>method\<close>, and
  \<open>json_body\<close> is the object given to \<open>JSON.stringify\<close> (the order of its properties
  carries no meaning here). A response is
  its status line and its body: the chunks the reader delivers before it reports
  \<open>done\<close>, or before a read is rejected (\<open>aborted\<close>). \<open>fetch\<close> itself is the function
  from the request to what the network answers.
\<close>

record request =
  verb :: jstring
  url :: jstring
  headers :: "(jstring \<times> jstring) list"
  json_body :: "jsval option"

record body_stream =
  chunks :: "byte list list"
  aborted :: bool

record response =
  status :: nat
  statusText :: jstring
  body :: "body_stream option"

datatype fetch_result = Rejected | Response response

definition ok :: "response \<Rightarrow> bool" where
  "ok r = (200 \<le> status r \<and> status r \<le> 299)"

text \<open>\<open>response.json()\<close>: the whole body, decoded as UTF-8 and parsed.\<close>

definition json :: "response \<Rightarrow> exn + jsval" where
  "json r =
     (case body r of
        None \<Rightarrow> Inl SyntaxError
      | Some b \<Rightarrow>
          if aborted b then Inl NetworkError
          else (case JSON_parse (decode (concat (chunks b))) of
                  None \<Rightarrow> Inl SyntaxError
                | Some v \<Rightarrow> Inr v))"

subsection \<open>The services\<close>

datatype provider = OpenAI | Anthropic | Google

record service =
  provider :: provider
  modelName :: jstring
  apiKey :: jstring
  baseUrl :: jstring

text \<open>The constructors: a default parameter replaces \<open>undefined\<close> (\<open>None\<close>), and
  \<open>baseUrl || '...'\<close> replaces the empty string too.\<close>

definition new_OpenAIService :: "jstring \<Rightarrow> jstring option \<Rightarrow> jstring option \<Rightarrow> service" where
  "new_OpenAIService key model base =
     \<lparr>provider = OpenAI,
      modelName = (case model of None \<Rightarrow> lit ''gpt-3.5-turbo'' | Some m \<Rightarrow> m),
      apiKey = key,
      baseUrl = (case base of
                   None \<Rightarrow> lit ''https://api.openai.com/v1''
                 | Some b \<Rightarrow> if b = [] then lit ''https://api.openai.com/v1'' else b)\<rparr>"

definition new_AnthropicService :: "jstring \<Rightarrow> jstring option \<Rightarrow> service" where
  "new_AnthropicService key model =
     \<lparr>provider = Anthropic,
      modelName = (case model of None \<Rightarrow> lit ''claude-3-opus'' | Some m \<Rightarrow> m),
      apiKey = key,
      baseUrl = lit ''https://api.anthropic.com/v1''\<rparr>"

definition new_GoogleService :: "jstring \<Rightarrow> jstring option \<Rightarrow> service" where
  "new_GoogleService key model =
     \<lparr>provider = Google,
      modelName = (case model of None \<Rightarrow> lit ''gemini-pro'' | Some m \<Rightarrow> m),
      apiKey = key,
      baseUrl = lit ''https://generativelanguage.googleapis.com/v1beta''\<rparr>"

text \<open>\<open>AIServiceFactory.createService\<close>: a \<open>switch\<close> on \<open>type.toLowerCase()\<close>.\<close>

definition createService ::
  "jstring \<Rightarrow> jstring \<Rightarrow> jstring option \<Rightarrow> jstring option \<Rightarrow> exn + service" where
  "createService type key model base =
     (if toLowerCase type = lit ''openai'' then Inr (new_OpenAIService key model base)
      else if toLowerCase type = lit ''anthropic'' then Inr (new_AnthropicService key model)
      else if toLowerCase type = lit ''google'' then Inr (new_GoogleService key model)
      else Inl (Error (lit ''Unsupported AI service type: '' @ type)))"

subsection \<open>Requests\<close>

text \<open>A message \<open>{role, content}\<close> is a pair; \<open>options\<close> is any value (\<open>options?: any\<close>),
  \<open>JUndefined\<close> when the caller leaves it out.\<close>

type_synonym message = "jstring \<times> jstring"

definition message_obj :: "message \<Rightarrow> jsval" where
  "message_obj m = JObj [(lit ''role'', JStr (fst m)), (lit ''content'', JStr (snd m))]"

definition openai_body :: "service \<Rightarrow> message list \<Rightarrow> jsval \<Rightarrow> bool \<Rightarrow> (jstring \<times> jsval) list" where
  "openai_body svc messages options streaming =
     spread [(lit ''model'', JStr (modelName svc)),
             (lit ''messages'', JArr (map message_obj messages)),
             (lit ''stream'', JBool streaming)]
            options"

definition openai_request :: "service \<Rightarrow> message list \<Rightarrow> jsval \<Rightarrow> bool \<Rightarrow> request" where
  "openai_request svc messages options streaming =
     \<lparr>verb = lit ''POST'',
      url = baseUrl svc @ lit ''/chat/completions'',
      headers = [(lit ''Content-Type'', lit ''application/json''),
                 (lit ''Authorization'', lit ''Bearer '' @ apiKey svc)],
      json_body = Some (JObj (openai_body svc messages options streaming))\<rparr>"

definition anthropic_body :: "service \<Rightarrow> message list \<Rightarrow> jsval \<Rightarrow> bool \<Rightarrow> (jstring \<times> jsval) list" where
  "anthropic_body svc messages options streaming =
     spread [(lit ''model'', JStr (modelName svc)),
             (lit ''messages'', JArr (map message_obj messages)),
             (lit ''max_tokens'',
                or_else (opt_get options (lit ''max_tokens'')) (JNum 1000 0)),
             (lit ''stream'', JBool streaming)]
            options"

definition anthropic_request :: "service \<Rightarrow> message list \<Rightarrow> jsval \<Rightarrow> bool \<Rightarrow> request" where
  "anthropic_request svc messages options streaming =
     \<lparr>verb = lit ''POST'',
      url = baseUrl svc @ lit ''/messages'',
      headers = [(lit ''Content-Type'', lit ''application/json''),
                 (lit ''x-api-key'', apiKey svc),
                 (lit ''anthropic-version'', lit ''2023-06-01''),
                 (lit ''anthropic-beta'', lit ''messages-2023-12-15'')],
      json_body = Some (JObj (anthropic_body svc messages options streaming))\<rparr>"

definition google_message :: "message \<Rightarrow> jsval" where
  "google_message m =
     JObj [(lit ''role'', JStr (if fst m = lit ''assistant'' then lit ''model'' else lit ''user'')),
           (lit ''parts'', JArr [JObj [(lit ''text'', JStr (snd m))]])]"

definition google_request :: "service \<Rightarrow> message list \<Rightarrow> jsval \<Rightarrow> request" where
  "google_request svc messages options =
     \<lparr>verb = lit ''POST'',
      url = baseUrl svc @ lit ''/models/'' @ modelName svc
            @ lit '':streamGenerateContent?key='' @ apiKey svc,
      headers = [(lit ''Content-Type'', lit ''application/json'')],
      json_body = Some (JObj
        [(lit ''contents'', JArr (map google_message messages)),
         (lit ''generationConfig'', JObj
            [(lit ''temperature'', opt_get options (lit ''temperature'')),
             (lit ''topP'', opt_get options (lit ''top_p'')),
             (lit ''maxOutputTokens'', opt_get options (lit ''max_tokens''))])])\<rparr>"

definition chat_request :: "service \<Rightarrow> message list \<Rightarrow> jsval \<Rightarrow> bool \<Rightarrow> request" where
  "chat_request svc messages options streaming =
     (case provider svc of
        OpenAI \<Rightarrow> openai_request svc messages options streaming
      | Anthropic \<Rightarrow> anthropic_request svc messages options streaming
      | Google \<Rightarrow> google_request svc messages options)"

definition validate_request :: "service \<Rightarrow> request" where
  "validate_request svc =
     (case provider svc of
        OpenAI \<Rightarrow>
          \<lparr>verb = lit ''GET'', url = baseUrl svc @ lit ''/models'',
           headers = [(lit ''Authorization'', lit ''Bearer '' @ apiKey svc)], json_body = None\<rparr>
      | Anthropic \<Rightarrow>
          \<lparr>verb = lit ''GET'', url = baseUrl svc @ lit ''/models'',
           headers = [(lit ''x-api-key'', apiKey svc)], json_body = None\<rparr>
      | Google \<Rightarrow>
          \<lparr>verb = lit ''GET'', url = baseUrl svc @ lit ''/models?key='' @ apiKey svc,
           headers = [], json_body = None\<rparr>)"

subsection \<open>chat: the failure of a response that is not ok\<close>

text \<open>
  The prefixes of the error messages, \<open>API\<close> followed by U+9519 U+8BEF and a colon.
\<close>

definition api_error :: "string \<Rightarrow> jstring" where
  "api_error name = lit name @ lit '' API'' @ [0x9519, 0x8BEF] @ lit '': ''"

text \<open>
  \<^verbatim>\<open>const errorData = await response.json();
if (errorData.error) {
  throw new Error(`OpenAI API...: ${errorData.error.message || errorData.error.code}`);
}
throw new Error(`OpenAI API...: ${response.statusText}`);\<close>
  Whatever \<open>response.json()\<close> or a property read raises leaves \<open>chat\<close> as it is: the
  outer \<open>catch\<close> logs and rethrows.
\<close>

definition openai_failure :: "number_toString \<Rightarrow> response \<Rightarrow> exn" where
  "openai_failure nts r =
     (case json r of
        Inl e \<Rightarrow> e
      | Inr errorData \<Rightarrow>
          (case get errorData (lit ''error'') of
             None \<Rightarrow> TypeError
           | Some err \<Rightarrow>
               if truthy err then
                 (case ToString nts (or_else (own_prop err (lit ''message'')) (own_prop err (lit ''code''))) of
                    None \<Rightarrow> TypeError
                  | Some m \<Rightarrow> Error (api_error ''OpenAI'' @ m))
               else Error (api_error ''OpenAI'' @ statusText r)))"

text \<open>
  \<^verbatim>\<open>const errorData = await response.json();
throw new Error(`Anthropic API...: ${errorData.error?.message || response.statusText}`);\<close>
  and the same in \<open>GoogleService\<close>, with its own prefix.
\<close>

definition message_failure :: "string \<Rightarrow> number_toString \<Rightarrow> response \<Rightarrow> exn" where
  "message_failure name nts r =
     (case json r of
        Inl e \<Rightarrow> e
      | Inr errorData \<Rightarrow>
          (case get errorData (lit ''error'') of
             None \<Rightarrow> TypeError
           | Some err \<Rightarrow>
               (case ToString nts (or_else (opt_get err (lit ''message'')) (JStr (statusText r))) of
                  None \<Rightarrow> TypeError
                | Some m \<Rightarrow> Error (api_error name @ m))))"

subsection \<open>chat: reading the answer\<close>

text \<open>
  The paths to the text. OpenAI, streaming: \<open>data.choices[0]?.delta?.content || ''\<close>;
  Anthropic, streaming: \<open>data.content?.[0]?.text || ''\<close>. \<open>None\<close> is the
  \<open>TypeError\<close> of a read on \<open>null\<close> or \<open>undefined\<close>.
\<close>

definition openai_delta :: "jsval \<Rightarrow> jsval option" where
  "openai_delta data =
     do {
       choices \<leftarrow> get data (lit ''choices'');
       choice \<leftarrow> index choices 0;
       Some (or_else (opt_get (opt_get choice (lit ''delta'')) (lit ''content'')) (JStr []))
     }"

definition anthropic_delta :: "jsval \<Rightarrow> jsval option" where
  "anthropic_delta data =
     do {
       content \<leftarrow> get data (lit ''content'');
       Some (or_else (opt_get (opt_elem content 0) (lit ''text'')) (JStr []))
     }"

text \<open>Without \<open>onStream\<close>: \<open>data.choices[0]?.message?.content || ''\<close>,
  \<open>data.content[0]?.text || ''\<close> and
  \<open>data.candidates?.[0]?.content?.parts?.[0]?.text || ''\<close>.\<close>

definition openai_message :: "jsval \<Rightarrow> jsval option" where
  "openai_message data =
     do {
       choices \<leftarrow> get data (lit ''choices'');
       choice \<leftarrow> index choices 0;
       Some (or_else (opt_get (opt_get choice (lit ''message'')) (lit ''content'')) (JStr []))
     }"

definition anthropic_message :: "jsval \<Rightarrow> jsval option" where
  "anthropic_message data =
     do {
       content \<leftarrow> get data (lit ''content'');
       first \<leftarrow> index content 0;
       Some (or_else (opt_get first (lit ''text'')) (JStr []))
     }"

definition google_path :: "jsval \<Rightarrow> jsval" where
  \<comment> \<open>\<open>c?.[0]?.content?.parts?.[0]?.text\<close> for the value \<open>c\<close> of \<open>data.candidates\<close>\<close>
  "google_path c =
     opt_get (opt_elem (opt_get (opt_get (opt_elem c 0) (lit ''content'')) (lit ''parts'')) 0)
             (lit ''text'')"

definition google_message_text :: "jsval \<Rightarrow> jsval option" where
  "google_message_text data =
     do {
       candidates \<leftarrow> get data (lit ''candidates'');
       Some (or_else (google_path candidates) (JStr []))
     }"

subsection \<open>chat: the line-framed stream of OpenAI and Anthropic\<close>

text \<open>
  The two services read the stream with the same loop and differ in the path to the
  text (\<open>delta_of\<close>). The state of the loop is \<open>fullResponse\<close> and the arguments
  \<open>onStream\<close> has been called with so far.
  \<^verbatim>\<open>if (line.startsWith('data: ') && !line.includes('[DONE]')) {
  try {
    const data = JSON.parse(line.substring(6));
    const content = data.choices[0]?.delta?.content || '';
    fullResponse += content;
    onStream(content);
  } catch (e) { console.error('Error parsing SSE data:', e); }
}\<close>
  An exception of \<open>JSON.parse\<close>, of the path or of \<open>+=\<close> leaves the state as it was.
  \<open>onStream\<close> is called after \<open>fullResponse\<close> has grown, and what it raises is caught
  too: whether it returns or not, the state after the call is the same.
\<close>

type_synonym progress = "jstring \<times> jsval list"

definition line_delta :: "(jsval \<Rightarrow> jsval option) \<Rightarrow> jstring \<Rightarrow> jsval option" where
  "line_delta delta_of line =
     (if startsWith line (lit ''data: '') \<and> \<not> includes_str line (lit ''[DONE]'')
      then do { data \<leftarrow> JSON_parse (drop 6 line); delta_of data }
      else None)"

definition sse_line ::
  "(jsval \<Rightarrow> jsval option) \<Rightarrow> number_toString \<Rightarrow> progress \<Rightarrow> jstring \<Rightarrow> progress" where
  "sse_line delta_of nts p line =
     (case line_delta delta_of line of
        None \<Rightarrow> p
      | Some content \<Rightarrow>
          (case add_string nts (fst p) content of
             None \<Rightarrow> p
           | Some full \<Rightarrow> (full, snd p @ [content])))"

text \<open>
  \<^verbatim>\<open>const chunk = decoder.decode(value);
const lines = chunk.split('\n').filter(line => line.trim() !== '');
for (const line of lines) { ... }\<close>
\<close>

definition chunk_lines :: "byte list \<Rightarrow> jstring list" where
  "chunk_lines bs = filter (\<lambda>line. trim line \<noteq> []) (split (decode bs) 0x0A)"

definition sse_chunk ::
  "(jsval \<Rightarrow> jsval option) \<Rightarrow> number_toString \<Rightarrow> progress \<Rightarrow> byte list \<Rightarrow> progress" where
  "sse_chunk delta_of nts p bs = foldl (sse_line delta_of nts) p (chunk_lines bs)"

text \<open>
  \<open>while (reader) { const {done, value} = await reader.read(); if (done) break; ... }\<close>
  and \<open>return fullResponse\<close>. Without a body there is no reader and the loop is skipped;
  a rejected read ends the call with what was raised, after the chunks before it.
\<close>

definition sse_read ::
  "(jsval \<Rightarrow> jsval option) \<Rightarrow> number_toString \<Rightarrow> body_stream option
     \<Rightarrow> jsval list \<times> (exn + jsval)" where
  "sse_read delta_of nts b =
     (case b of
        None \<Rightarrow> ([], Inr (JStr []))
      | Some st \<Rightarrow>
          (let p = foldl (sse_chunk delta_of nts) ([], []) (chunks st)
           in (snd p, if aborted st then Inl NetworkError else Inr (JStr (fst p)))))"

subsection \<open>chat: the buffered stream of Google\<close>

text \<open>
  A callback: given the arguments of its earlier calls and the argument of this one,
  does the call return (\<open>True\<close>) or raise (\<open>False\<close>)?
\<close>

type_synonym callback = "jsval list \<Rightarrow> jsval \<Rightarrow> bool"

text \<open>
  \<open>buffer += decoder.decode(value, { stream: true })\<close> for every chunk.
\<close>

fun google_buffer :: "utf8 \<times> bool \<Rightarrow> byte list list \<Rightarrow> jstring" where
  "google_buffer d [] = []"
| "google_buffer d (bs # rest) =
     (let (text, d') = decode_stream d bs in text @ google_buffer d' rest)"

text \<open>
  \<^verbatim>\<open>for (const data of responseArray) {
  if (data.candidates && data.candidates[0]?.content?.parts?.[0]?.text) {
    const content = data.candidates[0].content.parts[0].text;
    fullResponse += content;
    onStream(content);
  }
}\<close>
  The second component of the result tells whether the loop ended without an exception.
\<close>

definition google_content :: "jsval \<Rightarrow> jsval option" where
  \<comment> \<open>\<open>data.candidates[0].content.parts[0].text\<close>\<close>
  "google_content data =
     do {
       candidates \<leftarrow> get data (lit ''candidates'');
       candidate \<leftarrow> index candidates 0;
       content \<leftarrow> get candidate (lit ''content'');
       parts \<leftarrow> get content (lit ''parts'');
       part \<leftarrow> index parts 0;
       get part (lit ''text'')
     }"

fun google_items ::
  "number_toString \<Rightarrow> callback \<Rightarrow> progress \<Rightarrow> jsval list \<Rightarrow> progress \<times> bool" where
  "google_items nts cb p [] = (p, True)"
| "google_items nts cb p (data # rest) =
     (case get data (lit ''candidates'') of
        None \<Rightarrow> (p, False)
      | Some candidates \<Rightarrow>
          if truthy candidates \<and> truthy (google_path candidates) then
            (case google_content data of
               None \<Rightarrow> (p, False)
             | Some content \<Rightarrow>
                 (case add_string nts (fst p) content of
                    None \<Rightarrow> (p, False)
                  | Some full \<Rightarrow>
                      if cb (snd p) content
                      then google_items nts cb (full, snd p @ [content]) rest
                      else ((full, snd p @ [content]), False)))
          else google_items nts cb p rest)"

text \<open>
  \<^verbatim>\<open>const jsonArrayString = buffer.trim();
try {
  const responseArray = JSON.parse(jsonArrayString);
  if (Array.isArray(responseArray)) { for ... }
  else { throw new Error("Google API ..."); }
} catch (e) { throw new Error("... Google API ..."); }
return fullResponse;\<close>
  Every exception inside the \<open>try\<close>, the one of the \<open>else\<close> branch included, is
  replaced by the error of the \<open>catch\<close>.
\<close>

definition google_parse_failed :: exn where
  "google_parse_failed =
     Error ([0x89E3, 0x6790] @ lit '' Google API '' @ [0x54CD, 0x5E94, 0x5931, 0x8D25])"

definition google_read ::
  "number_toString \<Rightarrow> callback \<Rightarrow> body_stream option \<Rightarrow> jsval list \<times> (exn + jsval)" where
  "google_read nts cb b =
     (if (case b of None \<Rightarrow> False | Some st \<Rightarrow> aborted st) then ([], Inl NetworkError)
      else
        (let buffer = google_buffer (utf8_init, False) (case b of None \<Rightarrow> [] | Some st \<Rightarrow> chunks st)
         in case JSON_parse (trim buffer) of
              Some (JArr responseArray) \<Rightarrow>
                (let (p, finished) = google_items nts cb ([], []) responseArray
                 in (snd p, if finished then Inr (JStr (fst p)) else Inl google_parse_failed))
            | _ \<Rightarrow> ([], Inl google_parse_failed)))"

subsection \<open>chat and validateKey\<close>

text \<open>
  \<open>chat(messages, options, onStream)\<close>, as a function of the service, the network
  (\<open>fetch\<close>) and \<open>Number::toString\<close>: the arguments of the calls of \<open>onStream\<close>, in
  order, and the value the promise resolves to (\<open>Inr\<close>) or is rejected with (\<open>Inl\<close>).
\<close>

definition openai_chat ::
  "service \<Rightarrow> (request \<Rightarrow> fetch_result) \<Rightarrow> number_toString \<Rightarrow> message list \<Rightarrow> jsval
     \<Rightarrow> callback option \<Rightarrow> jsval list \<times> (exn + jsval)" where
  "openai_chat svc fetch nts messages options onStream =
     (case fetch (openai_request svc messages options (onStream \<noteq> None)) of
        Rejected \<Rightarrow> ([], Inl NetworkError)
      | Response r \<Rightarrow>
          if \<not> ok r then ([], Inl (openai_failure nts r))
          else (case onStream of
                  Some cb \<Rightarrow> sse_read openai_delta nts (body r)
                | None \<Rightarrow>
                    ([], case json r of
                           Inl e \<Rightarrow> Inl e
                         | Inr data \<Rightarrow>
                             (case openai_message data of
                                None \<Rightarrow> Inl TypeError
                              | Some v \<Rightarrow> Inr v))))"

definition anthropic_chat ::
  "service \<Rightarrow> (request \<Rightarrow> fetch_result) \<Rightarrow> number_toString \<Rightarrow> message list \<Rightarrow> jsval
     \<Rightarrow> callback option \<Rightarrow> jsval list \<times> (exn + jsval)" where
  "anthropic_chat svc fetch nts messages options onStream =
     (case fetch (anthropic_request svc messages options (onStream \<noteq> None)) of
        Rejected \<Rightarrow> ([], Inl NetworkError)
      | Response r \<Rightarrow>
          if \<not> ok r then ([], Inl (message_failure ''Anthropic'' nts r))
          else (case onStream of
                  Some cb \<Rightarrow> sse_read anthropic_delta nts (body r)
                | None \<Rightarrow>
                    ([], case json r of
                           Inl e \<Rightarrow> Inl e
                         | Inr data \<Rightarrow>
                             (case anthropic_message data of
                                None \<Rightarrow> Inl TypeError
                              | Some v \<Rightarrow> Inr v))))"

definition google_chat ::
  "service \<Rightarrow> (request \<Rightarrow> fetch_result) \<Rightarrow> number_toString \<Rightarrow> message list \<Rightarrow> jsval
     \<Rightarrow> callback option \<Rightarrow> jsval list \<times> (exn + jsval)" where
  "google_chat svc fetch nts messages options onStream =
     (case fetch (google_request svc messages options) of
        Rejected \<Rightarrow> ([], Inl NetworkError)
      | Response r \<Rightarrow>
          if \<not> ok r then ([], Inl (message_failure ''Google'' nts r))
          else (case onStream of
                  Some cb \<Rightarrow> google_read nts cb (body r)
                | None \<Rightarrow>
                    ([], case json r of
                           Inl e \<Rightarrow> Inl e
                         | Inr data \<Rightarrow>
                             (case google_message_text data of
                                None \<Rightarrow> Inl TypeError
                              | Some v \<Rightarrow> Inr v))))"

definition chat ::
  "service \<Rightarrow> (request \<Rightarrow> fetch_result) \<Rightarrow> number_toString \<Rightarrow> message list \<Rightarrow> jsval
     \<Rightarrow> callback option \<Rightarrow> jsval list \<times> (exn + jsval)" where
  "chat svc fetch nts messages options onStream =
     (case provider svc of
        OpenAI \<Rightarrow> openai_chat svc fetch nts messages options onStream
      | Anthropic \<Rightarrow> anthropic_chat svc fetch nts messages options onStream
      | Google \<Rightarrow> google_chat svc fetch nts messages options onStream)"

text \<open>
  \<^verbatim>\<open>try { const response = await fetch(...); return response.ok; } catch { return false; }\<close>
\<close>

definition validateKey :: "service \<Rightarrow> (request \<Rightarrow> fetch_result) \<Rightarrow> exn + bool" where
  "validateKey svc fetch =
     (case (case fetch (validate_request svc) of
              Rejected \<Rightarrow> Inl NetworkError
            | Response r \<Rightarrow> Inr (ok r)) of
        Inl e \<Rightarrow> Inr False
      | Inr b \<Rightarrow> Inr b)"

subsection \<open>Notions the properties are stated with\<close>

text \<open>Two identifiers that differ only in the case of ASCII letters.\<close>

definition differ_in_case :: "jstring \<Rightarrow> jstring \<Rightarrow> bool" where
  "differ_in_case s t =
     list_all2 (\<lambda>a b. a = b \<or> (0x41 \<le> a \<and> a \<le> 0x5A \<and> b = a + 0x20)
                          \<or> (0x41 \<le> b \<and> b \<le> 0x5A \<and> a = b + 0x20)) s t"

text \<open>
  The concatenation of the arguments \<open>onStream\<close> was called with, as strings, in call
  order: the value of \<open>'' + d1 + ... + dn\<close>.
\<close>

fun concat_deltas :: "number_toString \<Rightarrow> jsval list \<Rightarrow> jstring option" where
  "concat_deltas nts [] = Some []"
| "concat_deltas nts (d # ds) =
     (case ToString nts d of
        None \<Rightarrow> None
      | Some s \<Rightarrow> map_option ((@) s) (concat_deltas nts ds))"

text \<open>The invariant of the loops: \<open>fullResponse\<close> is the concatenation of the calls so far.\<close>

definition consistent :: "number_toString \<Rightarrow> progress \<Rightarrow> bool" where
  "consistent nts p = (concat_deltas nts (snd p) = Some (fst p))"

text \<open>The text of a chunk that holds whole lines, each ended by a line feed.\<close>

definition joined :: "jstring list \<Rightarrow> jstring" where
  "joined ls = concat (map (\<lambda>l. l @ [0x0A]) ls)"

text \<open>The argument of the call of \<open>onStream\<close> that a line leads to, if it leads to one.\<close>

definition emitted :: "(jsval \<Rightarrow> jsval option) \<Rightarrow> number_toString \<Rightarrow> jstring \<Rightarrow> jsval option" where
  "emitted delta_of nts line =
     (case line_delta delta_of line of
        None \<Rightarrow> None
      | Some content \<Rightarrow> (case ToString nts content of None \<Rightarrow> None | Some s \<Rightarrow> Some content))"

text \<open>The path to the text in a streamed line, by provider (Google reads no lines).\<close>

definition delta_path :: "provider \<Rightarrow> jsval \<Rightarrow> jsval option" where
  "delta_path pr =
     (case pr of
        OpenAI \<Rightarrow> openai_delta
      | Anthropic \<Rightarrow> anthropic_delta
      | Google \<Rightarrow> (\<lambda>data. None))"

text \<open>
  A well-formed line of the stream, with the text \<open>d\<close> it carries: it starts with
  \<open>data: \<close>, does not contain the end marker, its payload is JSON in which the path to
  the text can be read, and the text has a string.
\<close>

definition well_formed ::
  "(jsval \<Rightarrow> jsval option) \<Rightarrow> number_toString \<Rightarrow> jstring \<Rightarrow> jsval \<Rightarrow> bool" where
  "well_formed delta_of nts line d =
     (startsWith line (lit ''data: '') \<and> \<not> includes_str line (lit ''[DONE]'')
      \<and> (case JSON_parse (drop 6 line) of None \<Rightarrow> False | Some j \<Rightarrow> delta_of j = Some d)
      \<and> (case ToString nts d of None \<Rightarrow> False | Some s \<Rightarrow> True))"

text \<open>The name of a provider in its error messages.\<close>

definition provider_name :: "provider \<Rightarrow> string" where
  "provider_name pr = (case pr of OpenAI \<Rightarrow> ''OpenAI'' | Anthropic \<Rightarrow> ''Anthropic'' | Google \<Rightarrow> ''Google'')"

text \<open>
  Concrete inputs for the examples: a network that answers every request with the
  given status line and chunks, a chunk that is one line of ASCII text with its line
  feed, a \<open>Number::toString\<close> for values without numbers, and a callback that returns.
\<close>

definition answering :: "nat \<Rightarrow> string \<Rightarrow> byte list list \<Rightarrow> request \<Rightarrow> fetch_result" where
  "answering code reason bss q =
     Response \<lparr>status = code, statusText = lit reason,
               body = Some \<lparr>chunks = bss, aborted = False\<rparr>\<rparr>"

definition text_line :: "string \<Rightarrow> byte list" where
  "text_line s = ascii s @ [0x0A]"

definition no_numbers :: number_toString where
  "no_numbers m e = []"

definition returning :: callback where
  "returning calls d = True"

text \<open>The unfolding rules that evaluate the definitions on a concrete input.\<close>

lemmas demo_defs = answering_def text_line_def no_numbers_def returning_def

lemmas text_defs = lit_def ascii_def startsWith_def split_def trim_def is_space_def joined_def
lemmas decode_defs = decode_def utf8_byte_def utf8_lead_def utf8_init_def utf16_def strip_bom_def
  decode_stream_def
lemmas json_defs = JSON_parse_def scan_idle_def after_token_def is_digit_def word_of_def
  number_of_def exponent_of_def digits_val_def hex_val_def
lemmas path_defs = get_def index_def opt_get_def opt_elem_def nullish_def or_else_def
  openai_delta_def anthropic_delta_def google_path_def google_content_def
lemmas loop_defs = line_delta_def sse_line_def chunk_lines_def sse_chunk_def sse_read_def
  add_string_def google_read_def google_parse_failed_def emitted_def
lemmas chat_defs = chat_def openai_chat_def anthropic_chat_def google_chat_def ok_def
  new_OpenAIService_def new_AnthropicService_def new_GoogleService_def

section \<open>The factory\<close>

lemma differ_in_case_lower: "differ_in_case s t \<Longrightarrow> toLowerCase s = toLowerCase t"
  unfolding differ_in_case_def toLowerCase_def
  by (induction s t rule: list_all2_induct) (auto simp: lower_unit_def)

lemma createService_lower:
  "toLowerCase s = toLowerCase t \<Longrightarrow>
   createService s k m b = Inr svc \<Longrightarrow> createService t k m b = Inr svc"
  by (auto simp: createService_def split: if_splits)

lemma differ_in_case_toLowerCase: "differ_in_case t (toLowerCase t)"
  unfolding differ_in_case_def toLowerCase_def
  by (induction t) (auto simp: lower_unit_def)

lemma lower_names:
  "toLowerCase (lit ''openai'') = lit ''openai''"
  "toLowerCase (lit ''anthropic'') = lit ''anthropic''"
  "toLowerCase (lit ''google'') = lit ''google''"
  by (simp_all add: toLowerCase_def lit_def lower_unit_def)


text \<open>
  C7. The factory matches the identifier against the three provider names without
  regard to letter case: an identifier that differs from \<open>openai\<close>, \<open>anthropic\<close> or
  \<open>google\<close> only in the case of its letters gives that provider's service, two
  identifiers that differ only in letter case give the same service, and every other
  identifier raises the error whose message ends in the identifier as it was passed.
  \<open>createService\<close> has no \<open>fetch\<close> among its arguments: the constructors only store
  their arguments, and no request is made.
\<close>

theorem factory_matches_case_insensitively:
  "(differ_in_case t (lit ''openai'') \<longrightarrow> createService t k m b = Inr (new_OpenAIService k m b)) \<and>
   (differ_in_case t (lit ''anthropic'') \<longrightarrow> createService t k m b = Inr (new_AnthropicService k m)) \<and>
   (differ_in_case t (lit ''google'') \<longrightarrow> createService t k m b = Inr (new_GoogleService k m)) \<and>
   (differ_in_case t t' \<longrightarrow> createService t k m b = Inr svc \<longrightarrow> createService t' k m b = Inr svc) \<and>
   (\<not> differ_in_case t (lit ''openai'') \<and> \<not> differ_in_case t (lit ''anthropic'')
      \<and> \<not> differ_in_case t (lit ''google'') \<longrightarrow>
      createService t k m b = Inl (Error (lit ''Unsupported AI service type: '' @ t)))"
proof -
  have ne: "lit ''anthropic'' \<noteq> lit ''openai''" "lit ''google'' \<noteq> lit ''openai''"
    "lit ''google'' \<noteq> lit ''anthropic''"
    by (simp_all add: lit_def)
  have 1: "createService t k m b = Inr (new_OpenAIService k m b)"
    if "differ_in_case t (lit ''openai'')"
    using differ_in_case_lower [OF that] by (simp add: createService_def lower_names)
  have 2: "createService t k m b = Inr (new_AnthropicService k m)"
    if "differ_in_case t (lit ''anthropic'')"
    using differ_in_case_lower [OF that] ne by (simp add: createService_def lower_names)
  have 3: "createService t k m b = Inr (new_GoogleService k m)"
    if "differ_in_case t (lit ''google'')"
    using differ_in_case_lower [OF that] ne by (simp add: createService_def lower_names)
  have 4: "createService t' k m b = Inr svc"
    if "differ_in_case t t'" "createService t k m b = Inr svc"
    using createService_lower [OF differ_in_case_lower [OF that(1)] that(2)] .
  have 5: "createService t k m b = Inl (Error (lit ''Unsupported AI service type: '' @ t))"
    if "\<not> differ_in_case t (lit ''openai'')" "\<not> differ_in_case t (lit ''anthropic'')"
      "\<not> differ_in_case t (lit ''google'')"
  proof -
    from that differ_in_case_toLowerCase [of t]
    have "toLowerCase t \<noteq> lit ''openai''" "toLowerCase t \<noteq> lit ''anthropic''"
      "toLowerCase t \<noteq> lit ''google''"
      by auto
    then show ?thesis by (simp add: createService_def)
  qed
  from 1 2 3 4 5 show ?thesis by blast
qed

theorem factory_witness:
  "createService (lit ''OPENAI'') (lit ''sk'') None None
     = Inr (new_OpenAIService (lit ''sk'') None None) \<and>
   createService (lit ''openai'') (lit ''sk'') None None
     = Inr (new_OpenAIService (lit ''sk'') None None) \<and>
   createService (lit ''Anthropic'') (lit ''sk'') None None
     = Inr (new_AnthropicService (lit ''sk'') None) \<and>
   createService (lit ''gOOgle'') (lit ''sk'') None None
     = Inr (new_GoogleService (lit ''sk'') None) \<and>
   createService (lit ''mistral'') (lit ''sk'') None None
     = Inl (Error (lit ''Unsupported AI service type: mistral''))"
proof -
  have d: "differ_in_case (lit ''OPENAI'') (lit ''openai'')"
    "differ_in_case (lit ''Anthropic'') (lit ''anthropic'')"
    "differ_in_case (lit ''gOOgle'') (lit ''google'')"
    by (simp_all add: differ_in_case_def lit_def)
  have n: "\<not> differ_in_case (lit ''mistral'') (lit ''openai'')"
    "\<not> differ_in_case (lit ''mistral'') (lit ''anthropic'')"
    "\<not> differ_in_case (lit ''mistral'') (lit ''google'')"
    by (simp_all add: differ_in_case_def lit_def)
  have e: "lit ''Unsupported AI service type: '' @ lit ''mistral''
             = lit ''Unsupported AI service type: mistral''"
    by (simp add: lit_def)
  note f = factory_matches_case_insensitively [where k = "lit ''sk''" and m = None and b = None]
  from f [of "lit ''OPENAI''" "lit ''openai''" "new_OpenAIService (lit ''sk'') None None"] d(1)
  have 1: "createService (lit ''OPENAI'') (lit ''sk'') None None
     = Inr (new_OpenAIService (lit ''sk'') None None)"
   and 2: "createService (lit ''openai'') (lit ''sk'') None None
     = Inr (new_OpenAIService (lit ''sk'') None None)"
    by blast+
  from f [of "lit ''Anthropic''"] d(2)
  have 3: "createService (lit ''Anthropic'') (lit ''sk'') None None
     = Inr (new_AnthropicService (lit ''sk'') None)"
    by blast
  from f [of "lit ''gOOgle''"] d(3)
  have 4: "createService (lit ''gOOgle'') (lit ''sk'') None None
     = Inr (new_GoogleService (lit ''sk'') None)"
    by blast
  from f [of "lit ''mistral''"] n e
  have 5: "createService (lit ''mistral'') (lit ''sk'') None None
     = Inl (Error (lit ''Unsupported AI service type: mistral''))"
    by simp
  from 1 2 3 4 5 show ?thesis by blast
qed

section \<open>validateKey\<close>

text \<open>
  C9. \<open>validateKey\<close> always resolves (\<open>Inr\<close>), for every service and every answer of
  the network: to \<open>false\<close> when \<open>fetch\<close> is rejected, and otherwise to \<open>response.ok\<close>,
  which is true exactly for a status from 200 to 299.
\<close>

theorem validateKey_never_raises:
  "validateKey svc fetch =
     Inr (case fetch (validate_request svc) of
            Rejected \<Rightarrow> False
          | Response r \<Rightarrow> 200 \<le> status r \<and> status r \<le> 299)"
  by (simp add: validateKey_def ok_def split: fetch_result.split)

theorem validateKey_witness:
  "validateKey (new_GoogleService (lit ''k'') None) (\<lambda>q. Rejected) = Inr False \<and>
   validateKey (new_GoogleService (lit ''k'') None)
     (\<lambda>q. Response \<lparr>status = 401, statusText = [], body = None\<rparr>) = Inr False \<and>
   validateKey (new_GoogleService (lit ''k'') None)
     (\<lambda>q. Response \<lparr>status = 200, statusText = [], body = None\<rparr>) = Inr True"
  using validateKey_never_raises [of "new_GoogleService (lit ''k'') None" "\<lambda>q. Rejected"]
    validateKey_never_raises [of "new_GoogleService (lit ''k'') None"
      "\<lambda>q. Response \<lparr>status = 401, statusText = [], body = None\<rparr>"]
    validateKey_never_raises [of "new_GoogleService (lit ''k'') None"
      "\<lambda>q. Response \<lparr>status = 200, statusText = [], body = None\<rparr>"]
  by simp

section \<open>The request body\<close>







section \<open>The result of chat and the calls of onStream\<close>

lemma concat_deltas_snoc:
  "concat_deltas nts (ds @ [d]) =
     (case concat_deltas nts ds of None \<Rightarrow> None | Some s \<Rightarrow> add_string nts s d)"
proof (induction ds)
  case Nil
  show ?case by (cases "ToString nts d") (simp_all add: add_string_def)
next
  case (Cons a ds)
  then show ?case
    by (cases "ToString nts d"; cases "ToString nts a"; cases "concat_deltas nts ds")
       (simp_all add: add_string_def)
qed

lemma sse_line_consistent: "consistent nts p \<Longrightarrow> consistent nts (sse_line d nts p line)"
  by (auto simp: consistent_def sse_line_def concat_deltas_snoc split: option.splits)

lemma foldl_consistent:
  "(\<And>p x. consistent nts p \<Longrightarrow> consistent nts (f p x)) \<Longrightarrow> consistent nts p \<Longrightarrow>
   consistent nts (foldl f p xs)"
  by (induction xs arbitrary: p) auto

lemma sse_chunk_consistent: "consistent nts p \<Longrightarrow> consistent nts (sse_chunk d nts p bs)"
  unfolding sse_chunk_def by (rule foldl_consistent) (rule sse_line_consistent)

lemma sse_chunks_consistent: "consistent nts (foldl (sse_chunk d nts) ([], []) bss)"
proof (rule foldl_consistent)
  show "\<And>p x. consistent nts p \<Longrightarrow> consistent nts (sse_chunk d nts p x)"
    by (rule sse_chunk_consistent)
  show "consistent nts ([], [])" by (simp add: consistent_def)
qed

lemma sse_read_concat:
  "sse_read d nts b = (calls, Inr v) \<Longrightarrow> map_option JStr (concat_deltas nts calls) = Some v"
proof (cases b)
  case None
  assume "sse_read d nts b = (calls, Inr v)"
  with None show ?thesis by (auto simp: sse_read_def)
next
  case (Some st)
  assume r: "sse_read d nts b = (calls, Inr v)"
  with Some sse_chunks_consistent [of nts d "chunks st"] show ?thesis
    by (auto simp: sse_read_def consistent_def Let_def split: if_splits)
qed

lemma google_items_consistent:
  "google_items nts cb p items = (p', fin) \<Longrightarrow> consistent nts p \<Longrightarrow> consistent nts p'"
proof (induction nts cb p items arbitrary: p' fin rule: google_items.induct)
  case (1 nts cb p)
  then show ?case by simp
next
  case (2 nts cb p data rest)
  show ?case
  proof (cases "get data (lit ''candidates'')")
    case None
    with "2.prems" show ?thesis by simp
  next
    case (Some c)
    show ?thesis
    proof (cases "truthy c \<and> truthy (google_path c)")
      case False
      with Some "2.prems" "2.IH"(2) [of c p' fin] show ?thesis by auto
    next
      case True
      show ?thesis
      proof (cases "google_content data")
        case None
        with Some True "2.prems" show ?thesis by simp
      next
        case content: (Some content)
        show ?thesis
        proof (cases "add_string nts (fst p) content")
          case None
          with Some True content "2.prems" show ?thesis by simp
        next
          case full: (Some full)
          have c': "consistent nts (full, snd p @ [content])"
            using full "2.prems"(2) by (simp add: consistent_def concat_deltas_snoc)
          show ?thesis
          proof (cases "cb (snd p) content")
            case True': True
            from "2.IH"(1) [OF Some True content full True', of p' fin] "2.prems"(1) c'
              Some True content full True'
            show ?thesis by simp
          next
            case False
            with Some True content full "2.prems"(1) c' show ?thesis by auto
          qed
        qed
      qed
    qed
  qed
qed

lemma google_read_concat:
  "google_read nts cb b = (calls, Inr v) \<Longrightarrow> map_option JStr (concat_deltas nts calls) = Some v"
proof -
  assume r: "google_read nts cb b = (calls, Inr v)"
  define buffer where
    "buffer = google_buffer (utf8_init, False) (case b of None \<Rightarrow> [] | Some st \<Rightarrow> chunks st)"
  from r obtain xs where p: "JSON_parse (trim buffer) = Some (JArr xs)"
    by (auto simp: google_read_def buffer_def Let_def split: if_splits option.splits jsval.splits)
  obtain p' fin where g: "google_items nts cb ([], []) xs = (p', fin)"
    by (cases "google_items nts cb ([], []) xs") auto
  have "consistent nts p'"
    by (rule google_items_consistent [OF g]) (simp add: consistent_def)
  with r p g show ?thesis
    by (auto simp: google_read_def buffer_def [symmetric] consistent_def Let_def split: if_splits)
qed

text \<open>
  C1. For each of the three services: when \<open>chat\<close> is called with \<open>onStream\<close> and
  resolves, the value it resolves to is the string that concatenates, in call order,
  the arguments \<open>onStream\<close> was called with. (A response that is not ok, a rejected
  \<open>fetch\<close> or read, and the errors of the Google service reject the promise, and
  nothing is claimed of them.)
\<close>

theorem chat_result_is_concatenation_of_deltas:
  assumes "chat svc fetch nts messages options (Some cb) = (calls, Inr v)"
  shows "map_option JStr (concat_deltas nts calls) = Some v"
proof (cases "provider svc")
  case OpenAI
  with assms show ?thesis
    by (auto simp: chat_def openai_chat_def split: fetch_result.splits if_splits
        dest: sse_read_concat)
next
  case Anthropic
  with assms show ?thesis
    by (auto simp: chat_def anthropic_chat_def split: fetch_result.splits if_splits
        dest: sse_read_concat)
next
  case Google
  with assms show ?thesis
    by (auto simp: chat_def google_chat_def split: fetch_result.splits if_splits
        dest: google_read_concat)
qed

text \<open>With OpenAI and Anthropic an ok response whose body is read to its end always
  resolves.\<close>

lemma sse_read_resolves:
  "\<not> aborted st \<Longrightarrow> \<exists>s. snd (sse_read d nts (Some st)) = Inr (JStr s)"
  by (simp add: sse_read_def Let_def)

lemma openai_two_lines:
  \<open>chat (new_OpenAIService (lit ''k'') None None)
        (answering 200 ''OK'' [text_line ''data: {"choices":[{"delta":{"content":"Hel"}}]}'' @ text_line '''',
                        text_line ''data: {"choices":[{"delta":{"content":"lo"}}]}''])
        no_numbers [] JUndefined (Some returning)
     = ([JStr (lit ''Hel''), JStr (lit ''lo'')], Inr (JStr (lit ''Hello'')))\<close>
  by (simp add: chat_defs demo_defs text_defs decode_defs json_defs path_defs loop_defs)

lemma anthropic_two_lines:
  \<open>chat (new_AnthropicService (lit ''k'') None)
        (answering 200 ''OK'' [text_line ''data: {"content":[{"text":"Hel"}]}'' @ text_line ''''
                        @ text_line ''data: {"content":[{"text":"lo"}]}''])
        no_numbers [] JUndefined (Some returning)
     = ([JStr (lit ''Hel''), JStr (lit ''lo'')], Inr (JStr (lit ''Hello'')))\<close>
  by (simp add: chat_defs demo_defs text_defs decode_defs json_defs path_defs loop_defs)

lemma google_two_items:
  \<open>chat (new_GoogleService (lit ''k'') None)
        (answering 200 ''OK'' [ascii ''[{"candidates":[{"content":{"parts":[{"text":"Hel"}]}}]},'',
                        ascii ''{"candidates":[{"content":{"parts":[{"text":"lo"}]}}]}]''])
        no_numbers [] JUndefined (Some returning)
     = ([JStr (lit ''Hel''), JStr (lit ''lo'')], Inr (JStr (lit ''Hello'')))\<close>
  by (simp add: chat_defs demo_defs text_defs decode_defs json_defs path_defs loop_defs)

theorem concatenation_witness:
  "map_option JStr (concat_deltas no_numbers [JStr (lit ''Hel''), JStr (lit ''lo'')])
     = Some (JStr (lit ''Hello''))"
  using chat_result_is_concatenation_of_deltas [OF openai_two_lines]
    chat_result_is_concatenation_of_deltas [OF anthropic_two_lines]
    chat_result_is_concatenation_of_deltas [OF google_two_items]
  by simp

section \<open>The buffered response of Google\<close>

text \<open>
  C6. Google, with \<open>onStream\<close> and an ok response whose body was read to its end: when
  the buffered text, trimmed, is not JSON or is JSON that is not an array, \<open>chat\<close> is
  rejected with the error of the \<open>catch\<close> and \<open>onStream\<close> has not been called.
\<close>

theorem google_fails_without_deltas_on_bad_body:
  assumes "fetch (google_request svc messages options) = Response r"
    and "ok r"
    and "body r = Some st"
    and "\<not> aborted st"
    and "\<forall>xs. JSON_parse (trim (google_buffer (utf8_init, False) (chunks st))) \<noteq> Some (JArr xs)"
  shows "google_chat svc fetch nts messages options (Some cb) = ([], Inl google_parse_failed)"
  using assms
  by (auto simp: google_chat_def google_read_def Let_def split: option.splits jsval.splits)

theorem google_bad_body_witness:
  \<open>google_chat (new_GoogleService (lit ''k'') None)
      (answering 200 ''OK'' [ascii ''{"candidates":[]}'']) no_numbers [] JUndefined (Some returning)
     = ([], Inl google_parse_failed)
   \<and> google_chat (new_GoogleService (lit ''k'') None)
      (answering 200 ''OK'' [ascii ''[{"candidates":'']) no_numbers [] JUndefined (Some returning)
     = ([], Inl google_parse_failed)\<close>
proof -
  have f: "answering 200 ''OK'' bss q = Response \<lparr>status = 200, statusText = lit ''OK'',
               body = Some \<lparr>chunks = bss, aborted = False\<rparr>\<rparr>" for bss q
    by (simp add: answering_def)
  have ok: "ok \<lparr>status = 200, statusText = lit ''OK'',
               body = Some \<lparr>chunks = bss, aborted = False\<rparr>\<rparr>" for bss
    by (simp add: ok_def)
  have b: "body \<lparr>status = 200, statusText = lit ''OK'',
               body = Some \<lparr>chunks = bss, aborted = False\<rparr>\<rparr>
             = Some \<lparr>chunks = bss, aborted = False\<rparr>" for bss
    by simp
  have a: "\<not> aborted \<lparr>chunks = bss, aborted = False\<rparr>" for bss :: "byte list list"
    by simp
  have p1: \<open>\<forall>xs. JSON_parse (trim (google_buffer (utf8_init, False)
              (chunks \<lparr>chunks = [ascii ''{"candidates":[]}''], aborted = False\<rparr>))) \<noteq> Some (JArr xs)\<close>
    by (simp add: text_defs decode_defs json_defs)
  have p2: \<open>\<forall>xs. JSON_parse (trim (google_buffer (utf8_init, False)
              (chunks \<lparr>chunks = [ascii ''[{"candidates":''], aborted = False\<rparr>))) \<noteq> Some (JArr xs)\<close>
    by (simp add: text_defs decode_defs json_defs)
  from google_fails_without_deltas_on_bad_body
      [where fetch = \<open>answering 200 ''OK'' [ascii ''{"candidates":[]}'']\<close>
         and svc = "new_GoogleService (lit ''k'') None" and messages = "[]"
         and options = JUndefined and nts = no_numbers and cb = returning, OF f ok b a p1]
    google_fails_without_deltas_on_bad_body
      [where fetch = \<open>answering 200 ''OK'' [ascii ''[{"candidates":'']\<close>
         and svc = "new_GoogleService (lit ''k'') None" and messages = "[]"
         and options = JUndefined and nts = no_numbers and cb = returning, OF f ok b a p2]
  show ?thesis by blast
qed

section \<open>Chunks of whole lines\<close>

lemma split_acc_line:
  "sep \<notin> set l \<Longrightarrow> split_acc sep cur (l @ sep # rest) = (rev cur @ l) # split_acc sep [] rest"
  by (induction l arbitrary: cur) auto

lemma split_joined:
  "(\<And>l. l \<in> set ls \<Longrightarrow> 0x0A \<notin> set l) \<Longrightarrow> split (joined ls) 0x0A = ls @ [[]]"
proof (induction ls)
  case Nil
  show ?case by (simp add: split_def joined_def)
next
  case (Cons l ls)
  have "split_acc 0x0A [] (l @ 0x0A # joined ls) = l # split_acc 0x0A [] (joined ls)"
    using split_acc_line [of "0x0A" l "[]" "joined ls"] Cons.prems by simp
  with Cons show ?case by (simp add: split_def joined_def)
qed

lemma startsWith_Cons: "startsWith l (c # p) \<Longrightarrow> \<exists>r. l = c # r"
  by (cases l) (simp_all add: startsWith_def)

lemma blank_line_no_delta: "trim l = [] \<Longrightarrow> line_delta d l = None"
proof (rule ccontr)
  assume t: "trim l = []" and n: "line_delta d l \<noteq> None"
  from n have "startsWith l (lit ''data: '')"
    by (simp add: line_delta_def split: if_splits)
  then have "startsWith l (0x64 # lit ''ata: '')"
    by (simp add: lit_def)
  then obtain r where l: "l = 0x64 # r"
    using startsWith_Cons by blast
  have ns: "\<not> is_space 0x64" by (simp add: is_space_def)
  with l have dl: "dropWhile is_space l = 0x64 # r" by simp
  from t have "dropWhile is_space (rev (dropWhile is_space l)) = []"
    by (simp add: trim_def)
  then have "\<forall>x \<in> set (dropWhile is_space l). is_space x"
    by (simp add: dropWhile_eq_Nil_conv)
  then have "is_space 0x64" unfolding dl by simp
  with ns show False by simp
qed

lemma sse_line_blank: "trim l = [] \<Longrightarrow> sse_line d nts p l = p"
  by (simp add: sse_line_def blank_line_no_delta)

lemma foldl_sse_line_filter:
  "foldl (sse_line d nts) p (filter (\<lambda>line. trim line \<noteq> []) ls) = foldl (sse_line d nts) p ls"
  by (induction ls arbitrary: p) (auto simp: sse_line_blank)

lemma sse_chunk_joined:
  assumes "decode bs = joined ls" and "\<And>l. l \<in> set ls \<Longrightarrow> 0x0A \<notin> set l"
  shows "sse_chunk d nts p bs = foldl (sse_line d nts) p ls"
proof -
  have "chunk_lines bs = filter (\<lambda>line. trim line \<noteq> []) ls"
    using split_joined [of ls] assms by (simp add: chunk_lines_def trim_def)
  then show ?thesis by (simp add: sse_chunk_def foldl_sse_line_filter)
qed

lemma sse_chunks_joined:
  assumes "map decode bss = map joined lss" and "\<And>l. l \<in> set (concat lss) \<Longrightarrow> 0x0A \<notin> set l"
  shows "foldl (sse_chunk d nts) p bss = foldl (sse_line d nts) p (concat lss)"
  using assms
proof (induction bss arbitrary: lss p)
  case Nil
  then show ?case by simp
next
  case (Cons bs bss)
  then obtain ls lss' where lss: "lss = ls # lss'" by (cases lss) auto
  with Cons.prems have a: "decode bs = joined ls" and b: "map decode bss = map joined lss'"
    by auto
  have c: "\<And>l. l \<in> set ls \<Longrightarrow> 0x0A \<notin> set l"
    and d: "\<And>l. l \<in> set (concat lss') \<Longrightarrow> 0x0A \<notin> set l"
    using Cons.prems(2) lss by auto
  show ?case
    using Cons.IH [OF b d] sse_chunk_joined [OF a c] lss by simp
qed

lemma sse_line_emitted:
  "sse_line d nts p l =
     (case emitted d nts l of
        None \<Rightarrow> p
      | Some content \<Rightarrow> (fst p @ the (ToString nts content), snd p @ [content]))"
  by (cases p) (auto simp: sse_line_def emitted_def add_string_def split: option.splits)

lemma snd_foldl_sse_line:
  "snd (foldl (sse_line d nts) p ls) = snd p @ List.map_filter (emitted d nts) ls"
  by (induction ls arbitrary: p) (auto simp: sse_line_emitted List.map_filter_simps split: option.splits)

lemma chat_sse:
  assumes "provider svc = OpenAI \<or> provider svc = Anthropic"
    and "fetch (chat_request svc messages options True) = Response r"
    and "ok r"
  shows "chat svc fetch nts messages options (Some cb)
           = sse_read (delta_path (provider svc)) nts (body r)"
  using assms
  by (auto simp: chat_def chat_request_def openai_chat_def anthropic_chat_def delta_path_def)

lemma sse_read_lines:
  assumes "map decode (chunks st) = map joined lss"
    and "\<And>l. l \<in> set (concat lss) \<Longrightarrow> 0x0A \<notin> set l"
    and "\<not> aborted st"
  shows "\<exists>s. sse_read d nts (Some st) = (List.map_filter (emitted d nts) (concat lss), Inr (JStr s))
             \<and> concat_deltas nts (List.map_filter (emitted d nts) (concat lss)) = Some s"
proof -
  define p where "p = foldl (sse_chunk d nts) ([], []) (chunks st)"
  have "p = foldl (sse_line d nts) ([], []) (concat lss)"
    unfolding p_def using assms(1,2) by (rule sse_chunks_joined)
  then have calls: "snd p = List.map_filter (emitted d nts) (concat lss)"
    by (simp add: snd_foldl_sse_line)
  have "consistent nts p"
    unfolding p_def by (rule sse_chunks_consistent)
  then have "concat_deltas nts (snd p) = Some (fst p)"
    by (simp add: consistent_def)
  with calls assms(3) show ?thesis
    by (simp add: sse_read_def p_def [symmetric] Let_def)
qed

lemma emitted_blank: "trim l = [] \<Longrightarrow> emitted d nts l = None"
  by (simp add: emitted_def blank_line_no_delta)

lemma map_filter_emitted_nonblank:
  "List.map_filter (emitted d nts) (filter (\<lambda>l. trim l \<noteq> []) ls)
     = List.map_filter (emitted d nts) ls"
  by (induction ls) (auto simp: List.map_filter_simps emitted_blank split: option.splits)

lemma map_filter_app: "List.map_filter f (xs @ ys) = List.map_filter f xs @ List.map_filter f ys"
  by (simp add: List.map_filter_def)

lemma emitted_well_formed:
  assumes "startsWith l (lit ''data: '')" and "\<not> includes_str l (lit ''[DONE]'')"
    and "JSON_parse (drop 6 l) = Some j" and "d j = Some c" and "ToString nts c = Some s"
  shows "emitted d nts l = Some c"
  using assms by (simp add: emitted_def line_delta_def)

lemma emitted_malformed: "JSON_parse (drop 6 l) = None \<Longrightarrow> emitted d nts l = None"
  by (simp add: emitted_def line_delta_def)

lemma emitted_done: "includes_str l (lit ''[DONE]'') \<Longrightarrow> emitted d nts l = None"
  by (simp add: emitted_def line_delta_def)

lemma emitted_iff_well_formed: "emitted d nts l = Some c \<longleftrightarrow> well_formed d nts l c"
  by (auto simp: emitted_def line_delta_def well_formed_def split: option.splits Option.bind_splits)

lemma map_filter_well_formed:
  "list_all2 (well_formed d nts) ls ds \<Longrightarrow> List.map_filter (emitted d nts) ls = ds"
  by (induction ls ds rule: list_all2_induct)
     (simp_all add: List.map_filter_simps emitted_iff_well_formed [symmetric])

section \<open>A malformed line\<close>

text \<open>
  Where the chunks hold whole lines and the well-formed lines do not contain the end
  marker, a \<open>data: \<close> line whose payload \<open>JSON.parse\<close> rejects is passed over: the two
  well-formed lines around it give the two calls of \<open>onStream\<close>, in their order, and
  \<open>chat\<close> resolves to the concatenation of their texts.
\<close>

lemma malformed_line_is_skipped:
  assumes "provider svc = OpenAI \<or> provider svc = Anthropic"
    and "fetch (chat_request svc messages options True) = Response r" and "ok r"
    and "body r = Some st" and "\<not> aborted st"
    and "map decode (chunks st) = map joined lss"
    and "\<forall>l \<in> set (concat lss). 0x0A \<notin> set l"
    and "filter (\<lambda>l. trim l \<noteq> []) (concat lss) = [l1, bad, l2]"
    and "startsWith l1 (lit ''data: '')" and "\<not> includes_str l1 (lit ''[DONE]'')"
    and "JSON_parse (drop 6 l1) = Some j1" and "delta_path (provider svc) j1 = Some d1"
    and "ToString nts d1 = Some s1"
    and "startsWith bad (lit ''data: '')" and "JSON_parse (drop 6 bad) = None"
    and "startsWith l2 (lit ''data: '')" and "\<not> includes_str l2 (lit ''[DONE]'')"
    and "JSON_parse (drop 6 l2) = Some j2" and "delta_path (provider svc) j2 = Some d2"
    and "ToString nts d2 = Some s2"
  shows "chat svc fetch nts messages options (Some cb) = ([d1, d2], Inr (JStr (s1 @ s2)))"
proof -
  let ?e = "emitted (delta_path (provider svc)) nts"
  have e1: "?e l1 = Some d1"
    using assms(9-13) by (rule emitted_well_formed)
  have e2: "?e l2 = Some d2"
    using assms(16-20) by (rule emitted_well_formed)
  have eb: "?e bad = None"
    using assms(15) by (rule emitted_malformed)
  have "List.map_filter ?e (concat lss) = List.map_filter ?e [l1, bad, l2]"
    using map_filter_emitted_nonblank [of "delta_path (provider svc)" nts "concat lss"] assms(8)
    by simp
  then have calls: "List.map_filter ?e (concat lss) = [d1, d2]"
    by (simp add: List.map_filter_simps e1 e2 eb)
  from sse_read_lines [OF assms(6) _ assms(5), of "delta_path (provider svc)" nts] assms(7) calls
  obtain s where "sse_read (delta_path (provider svc)) nts (Some st) = ([d1, d2], Inr (JStr s))"
    and "concat_deltas nts [d1, d2] = Some s"
    by auto
  moreover have "concat_deltas nts [d1, d2] = Some (s1 @ s2)"
    using assms(13,20) by simp
  ultimately show ?thesis
    using chat_sse [where fetch = fetch and nts = nts and cb = cb, OF assms(1-3)] assms(4) by simp
qed

lemma malformed_line_example:
  \<open>chat (new_OpenAIService (lit ''k'') None None)
     (answering 200 ''OK''
        [text_line ''data: {"choices":[{"delta":{"content":"A"}}]}''
         @ text_line ''data: {"choices":[{"del''
         @ text_line ''data: {"choices":[{"delta":{"content":"B"}}]}''])
     no_numbers [] JUndefined (Some returning)
   = ([JStr (lit ''A''), JStr (lit ''B'')], Inr (JStr (lit ''AB'')))\<close>
proof -
  let ?svc = "new_OpenAIService (lit ''k'') None None"
  let ?l1 = \<open>lit ''data: {"choices":[{"delta":{"content":"A"}}]}''\<close>
  let ?bad = \<open>lit ''data: {"choices":[{"del''\<close>
  let ?l2 = \<open>lit ''data: {"choices":[{"delta":{"content":"B"}}]}''\<close>
  let ?j = "\<lambda>s. JObj [(lit ''choices'', JArr [JObj [(lit ''delta'',
               JObj [(lit ''content'', JStr (lit s))])]])]"
  let ?bs = \<open>text_line ''data: {"choices":[{"delta":{"content":"A"}}]}''
         @ text_line ''data: {"choices":[{"del''
         @ text_line ''data: {"choices":[{"delta":{"content":"B"}}]}''\<close>
  let ?st = "\<lparr>chunks = [?bs], aborted = False\<rparr>"
  let ?r = "\<lparr>status = 200, statusText = lit ''OK'', body = Some ?st\<rparr>"
  have h1: "provider ?svc = OpenAI \<or> provider ?svc = Anthropic"
    by (simp add: new_OpenAIService_def)
  have h2: "answering 200 ''OK'' [?bs] (chat_request ?svc [] JUndefined True) = Response ?r"
    by (simp add: answering_def)
  have h3: "ok ?r" by (simp add: ok_def)
  have h4: "body ?r = Some ?st" by simp
  have h5: "\<not> aborted ?st" by simp
  have h6: "map decode (chunks ?st) = map joined [[?l1, ?bad, ?l2]]"
    by (simp add: text_defs decode_defs demo_defs)
  have h7: "\<forall>l \<in> set (concat [[?l1, ?bad, ?l2]]). 0x0A \<notin> set l"
    by (simp add: lit_def)
  have h8: "filter (\<lambda>l. trim l \<noteq> []) (concat [[?l1, ?bad, ?l2]]) = [?l1, ?bad, ?l2]"
    by (simp add: text_defs)
  have p: "provider ?svc = OpenAI" by (simp add: new_OpenAIService_def)
  have a1: "startsWith ?l1 (lit ''data: '')" by (simp add: text_defs)
  have a2: "\<not> includes_str ?l1 (lit ''[DONE]'')" by (simp add: text_defs)
  have a3: "JSON_parse (drop 6 ?l1) = Some (?j ''A'')" by (simp add: text_defs json_defs)
  have a4: "delta_path (provider ?svc) (?j ''A'') = Some (JStr (lit ''A''))"
    by (simp add: new_OpenAIService_def new_AnthropicService_def delta_path_def path_defs lit_def)
  have a5: "ToString no_numbers (JStr (lit ''A'')) = Some (lit ''A'')" by simp
  have b1: "startsWith ?bad (lit ''data: '')" by (simp add: text_defs)
  have b2: "JSON_parse (drop 6 ?bad) = None" by (simp add: text_defs json_defs)
  have c1: "startsWith ?l2 (lit ''data: '')" by (simp add: text_defs)
  have c2: "\<not> includes_str ?l2 (lit ''[DONE]'')" by (simp add: text_defs)
  have c3: "JSON_parse (drop 6 ?l2) = Some (?j ''B'')" by (simp add: text_defs json_defs)
  have c4: "delta_path (provider ?svc) (?j ''B'') = Some (JStr (lit ''B''))"
    by (simp add: new_OpenAIService_def new_AnthropicService_def delta_path_def path_defs lit_def)
  have c5: "ToString no_numbers (JStr (lit ''B'')) = Some (lit ''B'')" by simp
  from malformed_line_is_skipped
         [where fetch = "answering 200 ''OK'' [?bs]" and cb = returning,
          OF h1 h2 h3 h4 h5 h6 h7 h8 a1 a2 a3 a4 a5 b1 b2 c1 c2 c3 c4 c5]
  show ?thesis by (simp add: lit_def)
qed

lemma malformed_between_two_lines:
  \<open>chat (new_OpenAIService (lit ''k'') None None)
     (answering 200 ''OK''
        [text_line ''data: {"choices":[{"delta":{"content":"A"}}]}''
         @ text_line ''data: {"choices":[{"del''
         @ text_line ''data: {"choices":[{"delta":{"content":"B"}}]}''])
     nts [] JUndefined (Some cb)
   = ([JStr (lit ''A''), JStr (lit ''B'')], Inr (JStr (lit ''AB'')))\<close>
  by (simp add: chat_defs demo_defs text_defs decode_defs json_defs path_defs loop_defs)

lemma malformed_after_line_with_marker:
  \<open>chat (new_OpenAIService (lit ''k'') None None)
     (answering 200 ''OK''
        [text_line ''data: {"choices":[{"delta":{"content":"see [DONE] tag"}}]}''
         @ text_line ''data: {"choices":[{"del''
         @ text_line ''data: {"choices":[{"delta":{"content":"B"}}]}''])
     nts [] JUndefined (Some cb)
   = ([JStr (lit ''B'')], Inr (JStr (lit ''B'')))\<close>
  by (simp add: chat_defs demo_defs text_defs decode_defs json_defs path_defs loop_defs)

lemma malformed_after_cut_line:
  \<open>chat (new_OpenAIService (lit ''k'') None None)
     (answering 200 ''OK''
        [ascii ''data: {"choices":[{"delta":{"con'',
         text_line ''tent":"A"}}]}''
         @ text_line ''data: {"choices":[{"del''
         @ text_line ''data: {"choices":[{"delta":{"content":"B"}}]}''])
     nts [] JUndefined (Some cb)
   = ([JStr (lit ''B'')], Inr (JStr (lit ''B'')))\<close>
  by (simp add: chat_defs demo_defs text_defs decode_defs json_defs path_defs loop_defs)

text \<open>
  C5. The claim is that a malformed line between two well-formed lines gives exactly
  two deltas. The per-line \<open>try\<close> does pass over the malformed line, as the first
  stream below shows. But a well-formed line is lost with it when its text contains
  \<open>[DONE]\<close>, since the guard asks \<open>line.includes('[DONE]')\<close> of the whole line, and
  when a chunk boundary cuts it, since no text is kept for the next chunk: in the
  second and the third stream the first of the two well-formed lines gives no call, and
  \<open>onStream\<close> is called once.
\<close>

theorem well_formed_line_with_marker_is_lost:
  \<open>chat (new_OpenAIService (lit ''k'') None None)
     (answering 200 ''OK''
        [text_line ''data: {"choices":[{"delta":{"content":"A"}}]}''
         @ text_line ''data: {"choices":[{"del''
         @ text_line ''data: {"choices":[{"delta":{"content":"B"}}]}''])
     nts [] JUndefined (Some cb)
   = ([JStr (lit ''A''), JStr (lit ''B'')], Inr (JStr (lit ''AB'')))
   \<and> chat (new_OpenAIService (lit ''k'') None None)
     (answering 200 ''OK''
        [text_line ''data: {"choices":[{"delta":{"content":"see [DONE] tag"}}]}''
         @ text_line ''data: {"choices":[{"del''
         @ text_line ''data: {"choices":[{"delta":{"content":"B"}}]}''])
     nts [] JUndefined (Some cb)
   = ([JStr (lit ''B'')], Inr (JStr (lit ''B'')))
   \<and> chat (new_OpenAIService (lit ''k'') None None)
     (answering 200 ''OK''
        [ascii ''data: {"choices":[{"delta":{"con'',
         text_line ''tent":"A"}}]}''
         @ text_line ''data: {"choices":[{"del''
         @ text_line ''data: {"choices":[{"delta":{"content":"B"}}]}''])
     nts [] JUndefined (Some cb)
   = ([JStr (lit ''B'')], Inr (JStr (lit ''B'')))\<close>
  using malformed_between_two_lines malformed_after_line_with_marker malformed_after_cut_line
  by blast

section \<open>The line data: [DONE]\<close>

text \<open>
  C2, as the code has it. The loop has no exit on \<open>[DONE]\<close>: the guard
  \<open>!line.includes('[DONE]')\<close> passes over the line, and the lines and chunks after it
  are read like those before it, until the reader reports \<open>done\<close>. So the claim that
  nothing is processed after the line fails: in the first stream below the line after
  \<open>data: [DONE]\<close> gives a call of \<open>onStream\<close> and the result \<open>x\<close>, where the stream
  that ends with the \<open>[DONE]\<close> line gives no call and the empty result.
\<close>

theorem done_line_counterexample:
  \<open>chat (new_OpenAIService (lit ''k'') None None)
     (answering 200 ''OK''
        [text_line ''data: [DONE]'',
         text_line ''data: {"choices":[{"delta":{"content":"x"}}]}''])
     no_numbers [] JUndefined (Some returning)
   = ([JStr (lit ''x'')], Inr (JStr (lit ''x'')))
   \<and> chat (new_OpenAIService (lit ''k'') None None)
     (answering 200 ''OK'' [text_line ''data: [DONE]''])
     no_numbers [] JUndefined (Some returning)
   = ([], Inr (JStr []))\<close>
  by (simp add: chat_defs demo_defs text_defs decode_defs json_defs path_defs loop_defs)

lemma done_line_includes: "includes_str (lit ''data: [DONE]'') (lit ''[DONE]'')"
  by (simp add: text_defs)

text \<open>
  C2, amended. OpenAI and Anthropic, with \<open>onStream\<close> and an ok response whose chunks
  hold whole lines: the line \<open>data: [DONE]\<close> leads to no call of \<open>onStream\<close> and does
  not end the reading. The calls of \<open>onStream\<close> are the calls the lines before it lead
  to, followed by the calls the lines after it lead to, and \<open>chat\<close> resolves. A line
  leads to a call, with its text, exactly when it is well-formed: the well-formed lines
  give one call each, in line order, and any other line (blank, malformed) gives none.
\<close>

theorem done_line_is_skipped_and_reading_goes_on:
  assumes "provider svc = OpenAI \<or> provider svc = Anthropic"
    and "fetch (chat_request svc messages options True) = Response r" and "ok r"
    and "body r = Some st" and "\<not> aborted st"
    and "map decode (chunks st) = map joined lss"
    and "\<forall>l \<in> set (concat lss). 0x0A \<notin> set l"
    and "concat lss = before @ [lit ''data: [DONE]''] @ after"
  shows "fst (chat svc fetch nts messages options (Some cb))
           = List.map_filter (emitted (delta_path (provider svc)) nts) before
             @ List.map_filter (emitted (delta_path (provider svc)) nts) after
       \<and> (\<exists>s. snd (chat svc fetch nts messages options (Some cb)) = Inr (JStr s))
       \<and> (\<forall>l d. (emitted (delta_path (provider svc)) nts l = Some d)
                   = well_formed (delta_path (provider svc)) nts l d)"
proof -
  let ?e = "emitted (delta_path (provider svc)) nts"
  have "List.map_filter ?e (concat lss) = List.map_filter ?e before @ List.map_filter ?e after"
    using assms(8) emitted_done [OF done_line_includes, of "delta_path (provider svc)" nts]
    by (simp add: map_filter_app List.map_filter_simps)
  with sse_read_lines [OF assms(6) _ assms(5), of "delta_path (provider svc)" nts] assms(7)
    chat_sse [where fetch = fetch and nts = nts and cb = cb, OF assms(1-3)] assms(4)
  have "fst (chat svc fetch nts messages options (Some cb))
           = List.map_filter ?e before @ List.map_filter ?e after"
    and "\<exists>s. snd (chat svc fetch nts messages options (Some cb)) = Inr (JStr s)"
    by auto
  then show ?thesis
    by (simp add: emitted_iff_well_formed)
qed

theorem done_line_witness:
  \<open>fst (chat (new_AnthropicService (lit ''k'') None)
     (answering 200 ''OK''
        [text_line ''data: {"content":[{"text":"A"}]}'' @ text_line ''''
           @ text_line ''data: [DONE]'',
         text_line ''data: {"content":[{"text":"B"}]}''])
     no_numbers [] JUndefined (Some returning))
   = [JStr (lit ''A''), JStr (lit ''B'')]\<close>
proof -
  let ?svc = "new_AnthropicService (lit ''k'') None"
  let ?l1 = \<open>lit ''data: {"content":[{"text":"A"}]}''\<close>
  let ?done = \<open>lit ''data: [DONE]''\<close>
  let ?l2 = \<open>lit ''data: {"content":[{"text":"B"}]}''\<close>
  let ?b1 = \<open>text_line ''data: {"content":[{"text":"A"}]}'' @ text_line ''''
           @ text_line ''data: [DONE]''\<close>
  let ?b2 = \<open>text_line ''data: {"content":[{"text":"B"}]}''\<close>
  let ?st = "\<lparr>chunks = [?b1, ?b2], aborted = False\<rparr>"
  let ?r = "\<lparr>status = 200, statusText = lit ''OK'', body = Some ?st\<rparr>"
  let ?e = "emitted (delta_path (provider ?svc)) no_numbers"
  have h1: "provider ?svc = OpenAI \<or> provider ?svc = Anthropic"
    by (simp add: new_AnthropicService_def)
  have h2: "answering 200 ''OK'' [?b1, ?b2] (chat_request ?svc [] JUndefined True) = Response ?r"
    by (simp add: answering_def)
  have h3: "ok ?r" by (simp add: ok_def)
  have h4: "body ?r = Some ?st" by simp
  have h5: "\<not> aborted ?st" by simp
  have h6: "map decode (chunks ?st) = map joined [[?l1, [], ?done], [?l2]]"
    by (simp add: text_defs decode_defs demo_defs)
  have h7: "\<forall>l \<in> set (concat [[?l1, [], ?done], [?l2]]). 0x0A \<notin> set l"
    by (simp add: lit_def)
  have h8: "concat [[?l1, [], ?done], [?l2]] = [?l1, []] @ [?done] @ [?l2]" by simp
  have e1: "?e ?l1 = Some (JStr (lit ''A''))"
    by (simp add: new_AnthropicService_def delta_path_def text_defs json_defs path_defs loop_defs)
  have e0: "?e [] = None"
    by (simp add: text_defs loop_defs)
  have e2: "?e ?l2 = Some (JStr (lit ''B''))"
    by (simp add: new_AnthropicService_def delta_path_def text_defs json_defs path_defs loop_defs)
  from done_line_is_skipped_and_reading_goes_on
         [where fetch = "answering 200 ''OK'' [?b1, ?b2]" and cb = returning,
          OF h1 h2 h3 h4 h5 h6 h7 h8]
  have "fst (chat ?svc (answering 200 ''OK'' [?b1, ?b2]) no_numbers [] JUndefined (Some returning))
          = List.map_filter ?e [?l1, []] @ List.map_filter ?e [?l2]"
    by blast
  then show ?thesis by (simp add: List.map_filter_simps e1 e0 e2)
qed

section \<open>Empty deltas\<close>

text \<open>
  C3, as the code has it. The line-framed loop has no test for the empty string:
  \<open>content\<close> is the text or \<open>''\<close>, and \<open>onStream(content)\<close> is called with it either
  way. The Google loop is the one that filters: its \<open>if\<close> asks for a truthy text. So
  both halves of the claim fail: an OpenAI line without a text calls \<open>onStream('')\<close>,
  and a Google element whose text is \<open>""\<close> calls nothing.
\<close>

theorem empty_delta_counterexample:
  \<open>chat (new_OpenAIService (lit ''k'') None None)
     (answering 200 ''OK'' [text_line ''data: {"choices":[{"delta":{}}]}''])
     no_numbers [] JUndefined (Some returning)
   = ([JStr []], Inr (JStr []))
   \<and> chat (new_GoogleService (lit ''k'') None)
     (answering 200 ''OK'' [ascii ''[{"candidates":[{"content":{"parts":[{"text":""}]}}]}]''])
     no_numbers [] JUndefined (Some returning)
   = ([], Inr (JStr []))\<close>
  by (simp add: chat_defs demo_defs text_defs decode_defs json_defs path_defs loop_defs)

lemma falsy_delta: "delta_path pr j = Some d \<Longrightarrow> \<not> truthy d \<Longrightarrow> d = JStr []"
  by (cases pr)
     (auto simp: delta_path_def openai_delta_def anthropic_delta_def or_else_def
           split: Option.bind_splits if_splits)

lemma google_content_path:
  "get data (lit ''candidates'') = Some c \<Longrightarrow> truthy (google_path c) \<Longrightarrow>
   google_content data = Some (google_path c)"
  by (auto simp: google_content_def google_path_def get_def index_def opt_get_def opt_elem_def
           split: if_splits)

lemma google_items_truthy:
  "google_items nts cb p items = (p', fin) \<Longrightarrow> list_all truthy (snd p) \<Longrightarrow>
   list_all truthy (snd p')"
proof (induction nts cb p items arbitrary: p' fin rule: google_items.induct)
  case (1 nts cb p)
  then show ?case by simp
next
  case (2 nts cb p data rest)
  show ?case
  proof (cases "get data (lit ''candidates'')")
    case None
    with "2.prems" show ?thesis by simp
  next
    case (Some c)
    show ?thesis
    proof (cases "truthy c \<and> truthy (google_path c)")
      case False
      with Some "2.prems" "2.IH"(2) [of c p' fin] show ?thesis by auto
    next
      case True
      then have content: "google_content data = Some (google_path c)"
        using google_content_path [OF Some] by simp
      show ?thesis
      proof (cases "add_string nts (fst p) (google_path c)")
        case None
        with Some True content "2.prems" show ?thesis by simp
      next
        case full: (Some full)
        have t: "list_all truthy (snd (full, snd p @ [google_path c]))"
          using True "2.prems"(2) by simp
        show ?thesis
        proof (cases "cb (snd p) (google_path c)")
          case True': True
          from "2.IH"(1) [OF Some True content full True', of p' fin] "2.prems"(1) t
            Some True content full True'
          show ?thesis by simp
        next
          case False
          with Some True content full "2.prems"(1) t show ?thesis by auto
        qed
      qed
    qed
  qed
qed

lemma google_read_truthy: "list_all truthy (fst (google_read nts cb b))"
proof -
  define buffer where
    "buffer = google_buffer (utf8_init, False) (case b of None \<Rightarrow> [] | Some st \<Rightarrow> chunks st)"
  show ?thesis
  proof (cases "\<exists>xs. JSON_parse (trim buffer) = Some (JArr xs)")
    case False
    then show ?thesis
      by (auto simp: google_read_def buffer_def [symmetric] Let_def
               split: option.splits jsval.splits)
  next
    case True
    then obtain xs where p: "JSON_parse (trim buffer) = Some (JArr xs)" by blast
    obtain p' fin where g: "google_items nts cb ([], []) xs = (p', fin)"
      by (cases "google_items nts cb ([], []) xs") auto
    have "list_all truthy (snd p')"
      by (rule google_items_truthy [OF g]) simp
    with p g show ?thesis
      by (auto simp: google_read_def buffer_def [symmetric] Let_def)
  qed
qed

lemma google_chat_truthy:
  "list_all truthy (fst (google_chat svc fetch nts messages options onStream))"
  using google_read_truthy
  by (auto simp: google_chat_def split: fetch_result.splits option.splits)

text \<open>
  C3, amended. OpenAI and Anthropic, with \<open>onStream\<close> and an ok response whose chunks
  hold whole lines: a line that starts with \<open>data: \<close>, does not contain \<open>[DONE]\<close>,
  whose payload is JSON in which the provider's path to the text can be read without
  an exception, and where that path holds no truthy value, makes \<open>onStream\<close> be called
  with the empty string. Google: every argument \<open>onStream\<close> is called with is truthy,
  so never the empty string.
\<close>

theorem empty_delta_reaches_onStream_except_with_google:
  assumes "provider svc = OpenAI \<or> provider svc = Anthropic"
    and "fetch (chat_request svc messages options True) = Response r" and "ok r"
    and "body r = Some st" and "\<not> aborted st"
    and "map decode (chunks st) = map joined lss"
    and "\<forall>l \<in> set (concat lss). 0x0A \<notin> set l"
    and "l \<in> set (concat lss)"
    and "startsWith l (lit ''data: '')" and "\<not> includes_str l (lit ''[DONE]'')"
    and "JSON_parse (drop 6 l) = Some j" and "delta_path (provider svc) j = Some d"
    and "\<not> truthy d"
  shows "JStr [] \<in> set (fst (chat svc fetch nts messages options (Some cb)))
       \<and> (\<forall>x \<in> set (fst (google_chat svc' fetch' nts' messages' options' onStream')).
            truthy x \<and> x \<noteq> JStr [])"
proof
  let ?e = "emitted (delta_path (provider svc)) nts"
  have d: "d = JStr []"
    using assms(12,13) by (rule falsy_delta)
  have "?e l = Some (JStr [])"
    using emitted_well_formed [where d = "delta_path (provider svc)" and nts = nts and s = "[]",
        OF assms(9-12)] d by simp
  with assms(8) have "JStr [] \<in> set (List.map_filter ?e (concat lss))"
    by (force simp: List.map_filter_def)
  with sse_read_lines [OF assms(6) _ assms(5), of "delta_path (provider svc)" nts] assms(7)
    chat_sse [where fetch = fetch and nts = nts and cb = cb, OF assms(1-3)] assms(4)
  show "JStr [] \<in> set (fst (chat svc fetch nts messages options (Some cb)))" by auto
next
  have "list_all truthy (fst (google_chat svc' fetch' nts' messages' options' onStream'))"
    by (rule google_chat_truthy)
  then show "\<forall>x \<in> set (fst (google_chat svc' fetch' nts' messages' options' onStream')).
            truthy x \<and> x \<noteq> JStr []"
    by (auto simp: list_all_iff)
qed

theorem empty_delta_witness:
  \<open>JStr [] \<in> set (fst (chat (new_AnthropicService (lit ''k'') None)
     (answering 200 ''OK'' [text_line ''data: {"type":"ping"}''])
     no_numbers [] JUndefined (Some returning)))\<close>
proof -
  let ?svc = "new_AnthropicService (lit ''k'') None"
  let ?l = \<open>lit ''data: {"type":"ping"}''\<close>
  let ?b = \<open>text_line ''data: {"type":"ping"}''\<close>
  let ?st = "\<lparr>chunks = [?b], aborted = False\<rparr>"
  let ?r = "\<lparr>status = 200, statusText = lit ''OK'', body = Some ?st\<rparr>"
  have h1: "provider ?svc = OpenAI \<or> provider ?svc = Anthropic"
    by (simp add: new_AnthropicService_def)
  have h2: "answering 200 ''OK'' [?b] (chat_request ?svc [] JUndefined True) = Response ?r"
    by (simp add: answering_def)
  have h3: "ok ?r" by (simp add: ok_def)
  have h4: "body ?r = Some ?st" by simp
  have h5: "\<not> aborted ?st" by simp
  have h6: "map decode (chunks ?st) = map joined [[?l]]"
    by (simp add: text_defs decode_defs demo_defs)
  have h7: "\<forall>l \<in> set (concat [[?l]]). 0x0A \<notin> set l"
    by (simp add: lit_def)
  have h8: "?l \<in> set (concat [[?l]])" by simp
  have p: "provider ?svc = Anthropic" by (simp add: new_AnthropicService_def)
  have a1: "startsWith ?l (lit ''data: '')" by (simp add: text_defs)
  have a2: "\<not> includes_str ?l (lit ''[DONE]'')" by (simp add: text_defs)
  have a3: "JSON_parse (drop 6 ?l) = Some (JObj [(lit ''type'', JStr (lit ''ping''))])"
    by (simp add: text_defs json_defs)
  have a4: "delta_path (provider ?svc) (JObj [(lit ''type'', JStr (lit ''ping''))]) = Some (JStr [])"
    by (simp add: new_OpenAIService_def new_AnthropicService_def delta_path_def path_defs lit_def)
  have a5: "\<not> truthy (JStr [])" by simp
  from empty_delta_reaches_onStream_except_with_google
         [where fetch = "answering 200 ''OK'' [?b]" and cb = returning and nts = no_numbers,
          OF h1 h2 h3 h4 h5 h6 h7 h8 a1 a2 a3 a4 a5]
  show ?thesis by blast
qed

section \<open>Chunk boundaries\<close>

text \<open>
  C4. The claim is that the deltas do not depend on where the response is cut into
  chunks. The line-framed loop decodes and splits each chunk on its own
  (\<open>decoder.decode(value)\<close> without \<open>stream\<close>, no text kept for the next chunk), where
  the Google loop hands \<open>{ stream: true }\<close> to the decoder and keeps a buffer. A line
  delivered in one chunk gives its delta; the same bytes cut inside the line give no
  delta at all, as neither part parses. Two bytes of one character, decoded apart,
  are two U+FFFD.
\<close>

theorem line_cut_by_a_chunk_boundary_is_lost:
  \<open>chat (new_OpenAIService (lit ''k'') None None)
     (answering 200 ''OK''
        [ascii ''data: {"choices":[{"delta":{"con'' @ text_line ''tent":"x"}}]}''])
     nts [] JUndefined (Some cb)
   = ([JStr (lit ''x'')], Inr (JStr (lit ''x'')))
   \<and> chat (new_OpenAIService (lit ''k'') None None)
     (answering 200 ''OK''
        [ascii ''data: {"choices":[{"delta":{"con'', text_line ''tent":"x"}}]}''])
     nts [] JUndefined (Some cb)
   = ([], Inr (JStr []))
   \<and> decode [0xC3, 0xA9] = [0xE9]
   \<and> decode [0xC3] @ decode [0xA9] = [0xFFFD, 0xFFFD]\<close>
  by (simp add: chat_defs demo_defs text_defs decode_defs json_defs path_defs loop_defs)

text \<open>
  The Google loop keeps the decoder's state and one buffer for the whole body: what it
  parses, and so what it calls and returns, depends on the bytes only and not on how
  they are cut into chunks.
\<close>

lemma utf8_run_append:
  "utf8_run st (xs @ ys) =
     (fst (utf8_run st xs) @ fst (utf8_run (snd (utf8_run st xs)) ys),
      snd (utf8_run (snd (utf8_run st xs)) ys))"
  by (induction xs arbitrary: st) (auto simp: split_beta Let_def)

lemma strip_bom_append: "out \<noteq> [] \<Longrightarrow> strip_bom (out @ rest) = strip_bom out @ rest"
  by (cases out) (auto simp: strip_bom_def)

lemma decode_stream_append:
  "decode_stream d (xs @ ys) =
     (fst (decode_stream d xs) @ fst (decode_stream (snd (decode_stream d xs)) ys),
      snd (decode_stream (snd (decode_stream d xs)) ys))"
  by (cases d) (auto simp: decode_stream_def utf8_run_append split_beta Let_def strip_bom_append)

lemma decode_stream_Nil: "decode_stream d [] = ([], d)"
  by (cases d) (simp add: decode_stream_def)

lemma google_buffer_concat: "google_buffer d bss = fst (decode_stream d (concat bss))"
  by (induction bss arbitrary: d)
     (auto simp: decode_stream_Nil decode_stream_append split_beta)

lemma google_read_chunking:
  "concat (chunks st) = concat (chunks st') \<Longrightarrow> aborted st = aborted st' \<Longrightarrow>
   google_read nts cb (Some st) = google_read nts cb (Some st')"
  by (simp add: google_read_def google_buffer_concat)

section \<open>The error of a response that is not ok\<close>

lemma chat_not_ok:
  assumes "fetch (chat_request svc messages options (onStream \<noteq> None)) = Response r"
    and "\<not> ok r"
  shows "chat svc fetch nts messages options onStream =
           ([], Inl (case provider svc of
                       OpenAI \<Rightarrow> openai_failure nts r
                     | Anthropic \<Rightarrow> message_failure ''Anthropic'' nts r
                     | Google \<Rightarrow> message_failure ''Google'' nts r))"
  using assms
  by (cases "provider svc")
     (simp_all add: chat_def chat_request_def openai_chat_def anthropic_chat_def google_chat_def)

lemma not_ok_message_of_payload:
  assumes "fetch (chat_request svc messages options (onStream \<noteq> None)) = Response r"
    and "\<not> ok r"
    and "json r = Inr (JObj kvs)"
    and "map_of kvs (lit ''error'') = Some (JObj err)"
    and "map_of err (lit ''message'') = Some (JStr m)" and "m \<noteq> []"
  shows "chat svc fetch nts messages options onStream =
           ([], Inl (Error (api_error (provider_name (provider svc)) @ m)))"
  using assms(3-6) unfolding chat_not_ok [where fetch = fetch and onStream = onStream, OF assms(1,2)]
  by (cases "provider svc")
     (simp_all add: openai_failure_def message_failure_def provider_name_def get_def nullish_def
        opt_get_def or_else_def)

lemma not_ok_status_text:
  assumes "fetch (chat_request svc messages options (onStream \<noteq> None)) = Response r"
    and "\<not> ok r"
    and "json r = Inr (JObj kvs)"
    and "map_of kvs (lit ''error'') = None"
  shows "chat svc fetch nts messages options onStream =
           ([], Inl (Error (api_error (provider_name (provider svc)) @ statusText r)))"
  using assms(3-4) unfolding chat_not_ok [where fetch = fetch and onStream = onStream, OF assms(1,2)]
  by (cases "provider svc")
     (simp_all add: openai_failure_def message_failure_def provider_name_def get_def nullish_def
        opt_get_def or_else_def)

lemma not_ok_body_not_json:
  assumes "fetch (chat_request svc messages options (onStream \<noteq> None)) = Response r"
    and "\<not> ok r"
    and "json r = Inl e"
  shows "chat svc fetch nts messages options onStream = ([], Inl e)"
  using assms(3) unfolding chat_not_ok [where fetch = fetch and onStream = onStream, OF assms(1,2)]
  by (cases "provider svc") (simp_all add: openai_failure_def message_failure_def)


text \<open>
  C8. The claim is that a response that is not ok rejects \<open>chat\<close> with the message of
  the JSON error payload, and with the status text when the body is not JSON. The
  services call \<open>response.json()\<close> outside any \<open>try\<close> of their own, so a body that is
  not JSON rejects \<open>chat\<close> with the \<open>SyntaxError\<close> of the parser, for all three
  services, and the status text is not used. With a JSON body the message comes from
  \<open>error.message\<close>, and from the status text when there is no such field.
\<close>

theorem error_body_that_is_not_json:
  \<open>chat (new_OpenAIService (lit ''k'') None None)
     (answering 502 ''Bad Gateway'' [ascii ''<html>'']) nts [] JUndefined onStream
   = ([], Inl SyntaxError)
   \<and> chat (new_AnthropicService (lit ''k'') None)
     (answering 502 ''Bad Gateway'' [ascii ''<html>'']) nts [] JUndefined onStream
   = ([], Inl SyntaxError)
   \<and> chat (new_GoogleService (lit ''k'') None)
     (answering 502 ''Bad Gateway'' [ascii ''<html>'']) nts [] JUndefined onStream
   = ([], Inl SyntaxError)
   \<and> chat (new_AnthropicService (lit ''k'') None)
     (answering 502 ''Bad Gateway'' [ascii ''{"error":{"message":"busy"}}'']) nts [] JUndefined onStream
   = ([], Inl (Error (api_error ''Anthropic'' @ lit ''busy'')))
   \<and> chat (new_AnthropicService (lit ''k'') None)
     (answering 502 ''Bad Gateway'' [ascii ''{}'']) nts [] JUndefined onStream
   = ([], Inl (Error (api_error ''Anthropic'' @ lit ''Bad Gateway'')))\<close>
  by (simp add: chat_defs demo_defs text_defs decode_defs json_defs path_defs loop_defs
      json_def openai_failure_def message_failure_def)

end
